theory Spec2Isabelle
  imports Main
begin

section \<open>MultibodyTreeSystem: lifecycle and kinematics caches\<close>

text \<open>
  A shallow embedding of \<^verbatim>\<open>multibody/multibody_tree/multibody_tree_system.cc\<close>.
  The scalar type \<^verbatim>\<open>T\<close> of the class template is the type variable \<open>'a\<close>; the two
  cache value types \<^verbatim>\<open>PositionKinematicsCache<T>\<close> and \<^verbatim>\<open>VelocityKinematicsCache<T>\<close>
  are the type variables \<open>'pc\<close> and \<open>'vc\<close>. Every \<^verbatim>\<open>throw\<close> and every failed
  \<^verbatim>\<open>DRAKE_DEMAND\<close> is a value of the type \<open>error\<close>.
\<close>

subsection \<open>Errors\<close>

datatype error =
    logic_error string
  | demand_failed
  | null_dereference
  | bad_cast

subsection \<open>The model handle (MultibodyTree)\<close>

text \<open>
  Modelled from the spec: the class \<^verbatim>\<open>MultibodyTree<T>\<close> is not part of the translated
  file. The spec gives its interface: \<^verbatim>\<open>topology_is_valid()\<close>, \<^verbatim>\<open>Finalize()\<close>,
  \<^verbatim>\<open>num_states/positions/velocities()\<close>, the back-pointer to the owning system and
  the stored numeric quantities that a scalar conversion re-represents. The three counts
  are what the topology reports; the system reads them after the topology is valid.
\<close>

record 'a multibody_tree =
  topology_is_valid :: bool
  num_positions :: nat
  num_velocities :: nat
  num_states :: nat
  tree_system :: "nat option"
  stored_quantities :: "'a list"

text \<open>
  Modelled from the spec: \<^verbatim>\<open>std::make_unique<MultibodyTree<T>>()\<close>, a fresh empty model
  whose topology is not yet valid and which belongs to no system.
\<close>

definition new_MultibodyTree :: "'a multibody_tree" where
  "new_MultibodyTree =
     \<lparr>topology_is_valid = False, num_positions = 0, num_velocities = 0, num_states = 0,
      tree_system = None, stored_quantities = []\<rparr>"

text \<open>Modelled from the spec: \<^verbatim>\<open>MultibodyTree::set_tree_system\<close> sets the back-pointer.\<close>

definition set_tree_system :: "nat \<Rightarrow> 'a multibody_tree \<Rightarrow> 'a multibody_tree" where
  "set_tree_system this t = t\<lparr>tree_system := Some this\<rparr>"

text \<open>
  Modelled from the spec: \<^verbatim>\<open>MultibodyTree::Finalize\<close> finalizes the model's topology,
  after which \<^verbatim>\<open>topology_is_valid()\<close> is true.
\<close>

definition tree_Finalize :: "'a multibody_tree \<Rightarrow> 'a multibody_tree" where
  "tree_Finalize t = t\<lparr>topology_is_valid := True\<rparr>"

text \<open>
  Modelled from the spec: \<^verbatim>\<open>MultibodyTree::CloneToScalar<T>\<close> is a topology-preserving
  value-type conversion: the topology (validity and counts) is copied, every stored
  quantity is converted, and the clone belongs to no system yet.
\<close>

definition CloneToScalar :: "('u \<Rightarrow> 'a) \<Rightarrow> 'u multibody_tree \<Rightarrow> 'a multibody_tree" where
  "CloneToScalar conv t =
     \<lparr>topology_is_valid = topology_is_valid t, num_positions = num_positions t,
      num_velocities = num_velocities t, num_states = num_states t,
      tree_system = None, stored_quantities = map conv (stored_quantities t)\<rparr>"

subsection \<open>The state and cache framework (LeafSystem, Context)\<close>

text \<open>
  The framework classes \<^verbatim>\<open>LeafSystem\<close>, \<^verbatim>\<open>Context\<close>, \<^verbatim>\<open>CacheEntry\<close> and
  \<^verbatim>\<open>AbstractValue\<close> are not part of the translated file. The spec describes a cache
  entry as a named slot with an allocator, a recompute function and a set of invalidation
  tickets, whose stored value is valid iff none of its tickets has been touched since the
  last recompute, and which recomputes when an invalid value is read.
\<close>

text \<open>
  Modelled from the spec: \<^verbatim>\<open>AbstractValue\<close>, the type-erased value of a cache slot;
  the two types stored here are the two kinematics caches.
\<close>

datatype ('pc, 'vc) abstract_value =
    Make_PositionKinematicsCache 'pc
  | Make_VelocityKinematicsCache 'vc

text \<open>
  Modelled from the spec: the dependency tickets of the framework that the system can
  name (\<^verbatim>\<open>configuration_ticket()\<close>, \<^verbatim>\<open>kinematics_ticket()\<close> and the velocity
  ticket).
\<close>

datatype ticket = configuration_ticket | velocity_ticket | kinematics_ticket

text \<open>
  Modelled from the spec: the classes of state change that touch tickets, a change of the
  configuration and a change of the velocities.
\<close>

datatype change = ConfigurationChanged | VelocityChanged

text \<open>
  Modelled from the spec: the kinematics ticket stands for configuration \<open>\<union>\<close> velocity.
\<close>

fun ticket_changes :: "ticket \<Rightarrow> change list" where
  "ticket_changes configuration_ticket = [ConfigurationChanged]"
| "ticket_changes velocity_ticket = [VelocityChanged]"
| "ticket_changes kinematics_ticket = [ConfigurationChanged, VelocityChanged]"

text \<open>
  Modelled from the spec: the changes that invalidate an entry are those that touch one
  of the tickets it was declared with.
\<close>

definition invalidated_by :: "ticket list \<Rightarrow> change set" where
  "invalidated_by ts = set (concat (map ticket_changes ts))"

text \<open>
  Modelled from the spec: one slot of a context's cache, with the stored value and its
  validity. \<open>recomputes\<close> is a ghost counter of the runs of the slot's compute function;
  \<open>slot_prerequisites\<close> is the ticket set the entry was declared with.
\<close>

record ('pc, 'vc) cache_entry_value =
  slot_value :: "('pc, 'vc) abstract_value"
  out_of_date :: bool
  recomputes :: nat
  slot_prerequisites :: "ticket list"

text \<open>
  Modelled from the spec: the context of one simulation run, with the position and the
  velocity sub-state and the cache slots.
\<close>

record ('a, 'pc, 'vc) multibody_tree_context =
  positions :: "'a list"
  velocities :: "'a list"
  cache :: "('pc, 'vc) cache_entry_value list"

text \<open>
  Modelled from the spec: a declared cache entry, with its name, allocator, compute
  function, invalidation tickets and index. The compute function receives the context and
  the value to overwrite; it can fail, and it can read other entries, which changes the
  context's cache.
\<close>

record ('a, 'pc, 'vc) cache_entry =
  description :: string
  alloc :: "unit \<Rightarrow> ('pc, 'vc) abstract_value"
  calc :: "('a, 'pc, 'vc) multibody_tree_context \<Rightarrow> ('pc, 'vc) abstract_value
             \<Rightarrow> error + ('pc, 'vc) abstract_value \<times> ('a, 'pc, 'vc) multibody_tree_context"
  prerequisites :: "ticket list"
  cache_index :: nat

text \<open>
  Modelled from the spec: a reserved state, one opaque discrete vector of a length, or a
  continuous vector of a length with its position, velocity and miscellaneous segments.
\<close>

datatype state_declaration =
    discrete_state nat
  | continuous_state nat nat nat nat

subsection \<open>The system object\<close>

text \<open>
  The members of \<^verbatim>\<open>MultibodyTreeSystem<T>\<close> (\<^verbatim>\<open>is_discrete_\<close>, \<^verbatim>\<open>tree_\<close>,
  \<^verbatim>\<open>already_finalized_\<close>, the two cache indices), the address \<^verbatim>\<open>this\<close>, and what the
  \<^verbatim>\<open>LeafSystem\<close> base has had declared on it. \<^verbatim>\<open>tree_\<close> is a \<^verbatim>\<open>unique_ptr\<close>:
  \<open>None\<close> is the null pointer.
\<close>

record ('a, 'pc, 'vc) multibody_tree_system =
  this_address :: nat
  is_discrete' :: bool
  tree' :: "'a multibody_tree option"
  already_finalized' :: bool
  position_kinematics_cache_index' :: "nat option"
  velocity_kinematics_cache_index' :: "nat option"
  declared_state :: "state_declaration list"
  cache_entries :: "('a, 'pc, 'vc) cache_entry list"

text \<open>
  Modelled from the spec: declare-discrete-state(size) reserves one opaque vector.
\<close>

definition DeclareDiscreteState ::
  "nat \<Rightarrow> ('a, 'pc, 'vc) multibody_tree_system \<Rightarrow> ('a, 'pc, 'vc) multibody_tree_system" where
  "DeclareDiscreteState n s = s\<lparr>declared_state := declared_state s @ [discrete_state n]\<rparr>"

text \<open>
  Modelled from the spec: declare-continuous-state(size, numPositions, numVelocities,
  numMisc) reserves a vector of the given size partitioned into the three segments; sizes
  that do not add up are a precondition violation, a fatal error.
\<close>

definition DeclareContinuousState ::
  "nat \<Rightarrow> nat \<Rightarrow> nat \<Rightarrow> nat \<Rightarrow> ('a, 'pc, 'vc) multibody_tree_system
     \<Rightarrow> error + ('a, 'pc, 'vc) multibody_tree_system" where
  "DeclareContinuousState n num_q num_v num_z s =
     (if n = num_q + num_v + num_z
      then Inr (s\<lparr>declared_state := declared_state s @ [continuous_state n num_q num_v num_z]\<rparr>)
      else Inl demand_failed)"

text \<open>
  Modelled from the spec: declare-cache-entry(name, allocator, compute, ticketSet) returns
  an entry handle with a stable index, the next free one.
\<close>

definition DeclareCacheEntry ::
  "string \<Rightarrow> (unit \<Rightarrow> ('pc, 'vc) abstract_value)
     \<Rightarrow> (('a, 'pc, 'vc) multibody_tree_context \<Rightarrow> ('pc, 'vc) abstract_value
           \<Rightarrow> error + ('pc, 'vc) abstract_value \<times> ('a, 'pc, 'vc) multibody_tree_context)
     \<Rightarrow> ticket list \<Rightarrow> ('a, 'pc, 'vc) multibody_tree_system
     \<Rightarrow> ('a, 'pc, 'vc) cache_entry \<times> ('a, 'pc, 'vc) multibody_tree_system" where
  "DeclareCacheEntry name a c ts s =
     (let e = \<lparr>description = name, alloc = a, calc = c, prerequisites = ts,
               cache_index = length (cache_entries s)\<rparr>
      in (e, s\<lparr>cache_entries := cache_entries s @ [e]\<rparr>))"

text \<open>
  Modelled from the spec: reading a cache entry returns the stored value when it is valid
  and otherwise runs the entry's compute function on the stored value, stores the result
  and marks the slot valid. An index without a slot is a fatal error.
\<close>

definition Eval ::
  "('a, 'pc, 'vc) cache_entry \<Rightarrow> ('a, 'pc, 'vc) multibody_tree_context
     \<Rightarrow> error + ('pc, 'vc) abstract_value \<times> ('a, 'pc, 'vc) multibody_tree_context" where
  "Eval e ctx =
     (if cache_index e < length (cache ctx) then
        (let slot = cache ctx ! cache_index e in
         if out_of_date slot then
           (case calc e ctx (slot_value slot) of
              Inl err \<Rightarrow> Inl err
            | Inr (v, ctx') \<Rightarrow>
                Inr (v, ctx'\<lparr>cache := (cache ctx')[cache_index e :=
                       slot\<lparr>slot_value := v, out_of_date := False,
                            recomputes := Suc (recomputes slot)\<rparr>]\<rparr>))
         else Inr (slot_value slot, ctx))
      else Inl demand_failed)"

text \<open>
  Modelled from the spec: a change of a class of state marks stale every slot whose
  declared tickets cover that class; the position sub-state belongs to the configuration,
  the velocity sub-state to the velocities.
\<close>

definition note_change ::
  "change \<Rightarrow> ('a, 'pc, 'vc) multibody_tree_context \<Rightarrow> ('a, 'pc, 'vc) multibody_tree_context" where
  "note_change c ctx =
     ctx\<lparr>cache := map (\<lambda>slot. if c \<in> invalidated_by (slot_prerequisites slot)
                               then slot\<lparr>out_of_date := True\<rparr> else slot) (cache ctx)\<rparr>"

text \<open>
  Modelled from the spec: a mutation of the position sub-state is a change of the
  configuration.
\<close>

definition SetPositions ::
  "'a list \<Rightarrow> ('a, 'pc, 'vc) multibody_tree_context \<Rightarrow> ('a, 'pc, 'vc) multibody_tree_context" where
  "SetPositions q ctx = note_change ConfigurationChanged (ctx\<lparr>positions := q\<rparr>)"

text \<open>
  Modelled from the spec: a mutation of the velocity sub-state is a change of the
  velocities.
\<close>

definition SetVelocities ::
  "'a list \<Rightarrow> ('a, 'pc, 'vc) multibody_tree_context \<Rightarrow> ('a, 'pc, 'vc) multibody_tree_context" where
  "SetVelocities v ctx = note_change VelocityChanged (ctx\<lparr>velocities := v\<rparr>)"

subsection \<open>The model's kinematics routines\<close>

text \<open>
  The constructors of the two cache types from a topology and the two routines
  \<^verbatim>\<open>CalcPositionKinematicsCache\<close> and \<^verbatim>\<open>CalcVelocityKinematicsCache\<close> belong to the
  model; the system only schedules them. They are parameters of the embedding.
\<close>

record ('a, 'pc, 'vc) kinematics =
  PositionKinematicsCache :: "'a multibody_tree \<Rightarrow> 'pc"
  CalcPositionKinematicsCache ::
    "'a multibody_tree \<Rightarrow> ('a, 'pc, 'vc) multibody_tree_context \<Rightarrow> 'pc"
  VelocityKinematicsCache :: "'a multibody_tree \<Rightarrow> 'vc"
  CalcVelocityKinematicsCache ::
    "'a multibody_tree \<Rightarrow> ('a, 'pc, 'vc) multibody_tree_context \<Rightarrow> 'pc \<Rightarrow> 'vc"

subsection \<open>Evaluating the two entries through the system\<close>

text \<open>
  Modelled from the spec: \<^verbatim>\<open>get_cache_entry(index)\<close> of the framework returns the
  entry declared with that index; an index that was never set or never declared is a
  fatal error.
\<close>

definition get_cache_entry ::
  "('a, 'pc, 'vc) multibody_tree_system \<Rightarrow> nat option \<Rightarrow> error + ('a, 'pc, 'vc) cache_entry" where
  "get_cache_entry s i =
     (case i of
        None \<Rightarrow> Inl demand_failed
      | Some n \<Rightarrow> if n < length (cache_entries s) then Inr (cache_entries s ! n)
                  else Inl demand_failed)"

text \<open>
  Modelled from the spec: \<^verbatim>\<open>EvalPositionKinematics\<close>, declared in the header, obtains
  an up-to-date position kinematics value: it reads the entry whose index
  \<^verbatim>\<open>Finalize\<close> stored and casts the value to the position cache type.
\<close>

definition EvalPositionKinematics ::
  "('a, 'pc, 'vc) multibody_tree_system \<Rightarrow> ('a, 'pc, 'vc) multibody_tree_context
     \<Rightarrow> error + 'pc \<times> ('a, 'pc, 'vc) multibody_tree_context" where
  "EvalPositionKinematics s ctx =
     (case get_cache_entry s (position_kinematics_cache_index' s) of
        Inl err \<Rightarrow> Inl err
      | Inr e \<Rightarrow>
          (case Eval e ctx of
             Inl err \<Rightarrow> Inl err
           | Inr (Make_PositionKinematicsCache pc, ctx') \<Rightarrow> Inr (pc, ctx')
           | Inr (Make_VelocityKinematicsCache vc, ctx') \<Rightarrow> Inl bad_cast))"

text \<open>
  Modelled from the spec: \<^verbatim>\<open>EvalVelocityKinematics\<close>, declared in the header, reads
  the velocity entry in the same way.
\<close>

definition EvalVelocityKinematics ::
  "('a, 'pc, 'vc) multibody_tree_system \<Rightarrow> ('a, 'pc, 'vc) multibody_tree_context
     \<Rightarrow> error + 'vc \<times> ('a, 'pc, 'vc) multibody_tree_context" where
  "EvalVelocityKinematics s ctx =
     (case get_cache_entry s (velocity_kinematics_cache_index' s) of
        Inl err \<Rightarrow> Inl err
      | Inr e \<Rightarrow>
          (case Eval e ctx of
             Inl err \<Rightarrow> Inl err
           | Inr (Make_PositionKinematicsCache pc, ctx') \<Rightarrow> Inl bad_cast
           | Inr (Make_VelocityKinematicsCache vc, ctx') \<Rightarrow> Inr (vc, ctx')))"

subsection \<open>The closures declared by Finalize\<close>

text \<open>
  The allocator and the compute function of the position entry (lines 93--103 of the
  source). \<^verbatim>\<open>GetMutableValue<PositionKinematicsCache<T>>\<close> throws on a value of another
  type; the routine then overwrites the value in place.
\<close>

definition position_kinematics_alloc ::
  "('a, 'pc, 'vc) kinematics \<Rightarrow> 'a multibody_tree \<Rightarrow> unit \<Rightarrow> ('pc, 'vc) abstract_value" where
  "position_kinematics_alloc K tree =
     (\<lambda>_. Make_PositionKinematicsCache (PositionKinematicsCache K tree))"

definition position_kinematics_calc ::
  "('a, 'pc, 'vc) kinematics \<Rightarrow> 'a multibody_tree
     \<Rightarrow> ('a, 'pc, 'vc) multibody_tree_context \<Rightarrow> ('pc, 'vc) abstract_value
     \<Rightarrow> error + ('pc, 'vc) abstract_value \<times> ('a, 'pc, 'vc) multibody_tree_context" where
  "position_kinematics_calc K tree =
     (\<lambda>context cache_value.
        case cache_value of
          Make_PositionKinematicsCache position_cache \<Rightarrow>
            Inr (Make_PositionKinematicsCache (CalcPositionKinematicsCache K tree context),
                 context)
        | Make_VelocityKinematicsCache _ \<Rightarrow> Inl bad_cast)"

text \<open>
  The allocator and the compute function of the velocity entry (lines 111--122). The
  compute function calls \<^verbatim>\<open>tree->EvalPositionKinematics(context)\<close>, which goes through
  the tree's back-pointer to the system's \<^verbatim>\<open>EvalPositionKinematics\<close>; \<open>sys\<close> is that
  system as it stands when the closure is made, with the position entry declared and its
  index stored (entries are only ever appended). The routine receives the context as the
  read has left it, and the position value the read returned.
\<close>

definition velocity_kinematics_alloc ::
  "('a, 'pc, 'vc) kinematics \<Rightarrow> 'a multibody_tree \<Rightarrow> unit \<Rightarrow> ('pc, 'vc) abstract_value" where
  "velocity_kinematics_alloc K tree =
     (\<lambda>_. Make_VelocityKinematicsCache (VelocityKinematicsCache K tree))"

definition velocity_kinematics_calc ::
  "('a, 'pc, 'vc) kinematics \<Rightarrow> 'a multibody_tree \<Rightarrow> ('a, 'pc, 'vc) multibody_tree_system
     \<Rightarrow> ('a, 'pc, 'vc) multibody_tree_context \<Rightarrow> ('pc, 'vc) abstract_value
     \<Rightarrow> error + ('pc, 'vc) abstract_value \<times> ('a, 'pc, 'vc) multibody_tree_context" where
  "velocity_kinematics_calc K tree sys =
     (\<lambda>context cache_value.
        case cache_value of
          Make_PositionKinematicsCache _ \<Rightarrow> Inl bad_cast
        | Make_VelocityKinematicsCache velocity_cache \<Rightarrow>
            (case EvalPositionKinematics sys context of
               Inl err \<Rightarrow> Inl err
             | Inr (pc, context') \<Rightarrow>
                 Inr (Make_VelocityKinematicsCache
                        (CalcVelocityKinematicsCache K tree context' pc), context')))"

subsection \<open>Finalize, the constructors and the mutable tree accessor\<close>

text \<open>
  \<^verbatim>\<open>MultibodyTreeSystem<T>::Finalize()\<close>. A throwing call returns \<open>Inl\<close> of the error
  and the object as the throw leaves it; a returning call returns \<open>Inr\<close> of the object.
  Dereferencing a null \<^verbatim>\<open>tree_\<close> is the error \<open>null_dereference\<close>.
\<close>

definition Finalize ::
  "('a, 'pc, 'vc) kinematics \<Rightarrow> ('a, 'pc, 'vc) multibody_tree_system
     \<Rightarrow> error \<times> ('a, 'pc, 'vc) multibody_tree_system + ('a, 'pc, 'vc) multibody_tree_system" where
  "Finalize K s =
     (if already_finalized' s then
        Inl (logic_error ''MultibodyTreeSystem::Finalize(): repeated calls not allowed.'', s)
      else
        (case tree' s of
           None \<Rightarrow> Inl (null_dereference, s)
         | Some t0 \<Rightarrow>
             (let t = (if \<not> topology_is_valid t0 then tree_Finalize t0 else t0);
                  s1 = s\<lparr>tree' := Some t\<rparr>
              in case (if is_discrete' s1
                       then Inr (DeclareDiscreteState (num_states t) s1)
                       else DeclareContinuousState (num_states t) (num_positions t)
                              (num_velocities t) 0 s1) of
                   Inl err \<Rightarrow> Inl (err, s1)
                 | Inr s2 \<Rightarrow>
                     (let (position_kinematics_cache_entry, s3) =
                            DeclareCacheEntry ''position kinematics''
                              (position_kinematics_alloc K t)
                              (position_kinematics_calc K t)
                              [configuration_ticket] s2;
                          s4 = s3\<lparr>position_kinematics_cache_index' :=
                                    Some (cache_index position_kinematics_cache_entry)\<rparr>;
                          (velocity_kinematics_cache_entry, s5) =
                            DeclareCacheEntry ''velocity kinematics''
                              (velocity_kinematics_alloc K t)
                              (velocity_kinematics_calc K t s4)
                              [kinematics_ticket] s4;
                          s6 = s5\<lparr>velocity_kinematics_cache_index' :=
                                    Some (cache_index velocity_kinematics_cache_entry)\<rparr>
                      in Inr (s6\<lparr>already_finalized' := True\<rparr>)))))"

text \<open>
  The one true constructor (lines 28--48). \<open>this\<close> is the address of the object under
  construction; the scalar converter handed to the \<^verbatim>\<open>LeafSystem\<close> base plays no part
  in what follows and is left out. A constructor that throws leaves no object.
\<close>

definition MultibodyTreeSystem ::
  "('a, 'pc, 'vc) kinematics \<Rightarrow> nat \<Rightarrow> bool \<Rightarrow> 'a multibody_tree option \<Rightarrow> bool
     \<Rightarrow> error + ('a, 'pc, 'vc) multibody_tree_system" where
  "MultibodyTreeSystem K this null_tree_is_ok tree is_discrete =
     (let s = \<lparr>this_address = this, is_discrete' = is_discrete, tree' = None,
               already_finalized' = False, position_kinematics_cache_index' = None,
               velocity_kinematics_cache_index' = None, declared_state = [],
               cache_entries = []\<rparr>
      in case tree of
           None \<Rightarrow>
             if \<not> null_tree_is_ok then
               Inl (logic_error ''MultibodyTreeSystem(): the supplied MultibodyTree was null.'')
             else Inr (s\<lparr>tree' := Some (set_tree_system this new_MultibodyTree)\<rparr>)
         | Some t \<Rightarrow>
             (case Finalize K (s\<lparr>tree' := Some (set_tree_system this t)\<rparr>) of
                Inl (err, _) \<Rightarrow> Inl err
              | Inr s' \<Rightarrow> Inr s'))"

text \<open>
  The scalar-converting constructor (lines 19--25): the one true constructor on the
  converted clone of the other system's tree, null not allowed, with the other system's
  mode. \<^verbatim>\<open>other.tree()\<close> dereferences the other system's \<^verbatim>\<open>tree_\<close>.
\<close>

definition MultibodyTreeSystem_converting ::
  "('a, 'pc, 'vc) kinematics \<Rightarrow> nat \<Rightarrow> ('u \<Rightarrow> 'a) \<Rightarrow> ('u, 'pcu, 'vcu) multibody_tree_system
     \<Rightarrow> error + ('a, 'pc, 'vc) multibody_tree_system" where
  "MultibodyTreeSystem_converting K this conv other =
     (case tree' other of
        None \<Rightarrow> Inl null_dereference
      | Some t \<Rightarrow>
          MultibodyTreeSystem K this False (Some (CloneToScalar conv t)) (is_discrete' other))"

text \<open>
  \<^verbatim>\<open>MultibodyTreeSystem<T>::mutable_tree()\<close> (lines 60--68); the reference it returns
  is modelled by the tree it refers to.
\<close>

definition mutable_tree ::
  "('a, 'pc, 'vc) multibody_tree_system \<Rightarrow> error + 'a multibody_tree" where
  "mutable_tree s =
     (case tree' s of
        None \<Rightarrow> Inl demand_failed
      | Some t \<Rightarrow>
          if topology_is_valid t then
            Inl (logic_error
              ''MultibodyTreeSystem::mutable_tree(): the contained MultibodyTree is finalized already.'')
          else Inr t)"

subsection \<open>Contexts of a system\<close>

text \<open>
  \<^verbatim>\<open>MultibodyTreeSystem<T>::DoMakeLeafContext()\<close> (lines 132--137) makes a
  \<^verbatim>\<open>MultibodyTreeContext\<close> from the tree's topology and the mode. The constructor of
  that class is not part of the translated file; by the spec the state container holds a
  position segment of length \<^verbatim>\<open>num_positions\<close> and a velocity segment of length
  \<^verbatim>\<open>num_velocities\<close>, in either mode.
\<close>

definition DoMakeLeafContext ::
  "('a::zero, 'pc, 'vc) multibody_tree_system
     \<Rightarrow> error + ('a, 'pc, 'vc) multibody_tree_context" where
  "DoMakeLeafContext s =
     (case tree' s of
        None \<Rightarrow> Inl null_dereference
      | Some t \<Rightarrow>
          Inr \<lparr>positions = replicate (num_positions t) 0,
               velocities = replicate (num_velocities t) 0, cache = []\<rparr>)"

text \<open>
  Modelled from the spec: a context created for a system gets one slot per declared
  cache entry, holding the allocator's value, not yet computed and therefore stale.
\<close>

definition AllocateContext ::
  "('a::zero, 'pc, 'vc) multibody_tree_system
     \<Rightarrow> error + ('a, 'pc, 'vc) multibody_tree_context" where
  "AllocateContext s =
     (case DoMakeLeafContext s of
        Inl err \<Rightarrow> Inl err
      | Inr ctx \<Rightarrow>
          Inr (ctx\<lparr>cache := map (\<lambda>e. \<lparr>slot_value = alloc e (), out_of_date = True,
                                       recomputes = 0,
                                       slot_prerequisites = prerequisites e\<rparr>)
                                (cache_entries s)\<rparr>))"

text \<open>
  What a client does with a context: mutate the position or the velocity sub-state, or
  pull one of the two cache values. A run performs a list of such actions in order and
  stops at the first error.
\<close>

datatype 'a action =
    mutate_positions "'a list"
  | mutate_velocities "'a list"
  | pull_position_kinematics
  | pull_velocity_kinematics

fun perform ::
  "('a, 'pc, 'vc) multibody_tree_system \<Rightarrow> 'a action \<Rightarrow> ('a, 'pc, 'vc) multibody_tree_context
     \<Rightarrow> error + ('a, 'pc, 'vc) multibody_tree_context" where
  "perform s (mutate_positions q) ctx = Inr (SetPositions q ctx)"
| "perform s (mutate_velocities v) ctx = Inr (SetVelocities v ctx)"
| "perform s pull_position_kinematics ctx =
     (case EvalPositionKinematics s ctx of Inl err \<Rightarrow> Inl err | Inr (_, ctx') \<Rightarrow> Inr ctx')"
| "perform s pull_velocity_kinematics ctx =
     (case EvalVelocityKinematics s ctx of Inl err \<Rightarrow> Inl err | Inr (_, ctx') \<Rightarrow> Inr ctx')"

fun run ::
  "('a, 'pc, 'vc) multibody_tree_system \<Rightarrow> 'a action list \<Rightarrow> ('a, 'pc, 'vc) multibody_tree_context
     \<Rightarrow> error + ('a, 'pc, 'vc) multibody_tree_context" where
  "run s [] ctx = Inr ctx"
| "run s (a # as) ctx =
     (case perform s a ctx of Inl err \<Rightarrow> Inl err | Inr ctx' \<Rightarrow> run s as ctx')"

fun is_pull :: "'a action \<Rightarrow> bool" where
  "is_pull pull_position_kinematics = True"
| "is_pull pull_velocity_kinematics = True"
| "is_pull _ = False"

text \<open>Observers of a slot, by the index the system stored for it.\<close>

definition slot_at ::
  "nat option \<Rightarrow> ('a, 'pc, 'vc) multibody_tree_context \<Rightarrow> ('pc, 'vc) cache_entry_value option" where
  "slot_at i ctx =
     (case i of
        None \<Rightarrow> None
      | Some n \<Rightarrow> if n < length (cache ctx) then Some (cache ctx ! n) else None)"

definition position_slot ::
  "('a, 'pc, 'vc) multibody_tree_system \<Rightarrow> ('a, 'pc, 'vc) multibody_tree_context
     \<Rightarrow> ('pc, 'vc) cache_entry_value option" where
  "position_slot s ctx = slot_at (position_kinematics_cache_index' s) ctx"

definition velocity_slot ::
  "('a, 'pc, 'vc) multibody_tree_system \<Rightarrow> ('a, 'pc, 'vc) multibody_tree_context
     \<Rightarrow> ('pc, 'vc) cache_entry_value option" where
  "velocity_slot s ctx = slot_at (velocity_kinematics_cache_index' s) ctx"

text \<open>The run count and the staleness of the two slots of a context.\<close>

definition position_recomputes ::
  "('a, 'pc, 'vc) multibody_tree_system \<Rightarrow> ('a, 'pc, 'vc) multibody_tree_context \<Rightarrow> nat" where
  "position_recomputes s ctx =
     (case position_slot s ctx of None \<Rightarrow> 0 | Some slot \<Rightarrow> recomputes slot)"

definition velocity_recomputes ::
  "('a, 'pc, 'vc) multibody_tree_system \<Rightarrow> ('a, 'pc, 'vc) multibody_tree_context \<Rightarrow> nat" where
  "velocity_recomputes s ctx =
     (case velocity_slot s ctx of None \<Rightarrow> 0 | Some slot \<Rightarrow> recomputes slot)"

definition position_out_of_date ::
  "('a, 'pc, 'vc) multibody_tree_system \<Rightarrow> ('a, 'pc, 'vc) multibody_tree_context \<Rightarrow> bool" where
  "position_out_of_date s ctx =
     (case position_slot s ctx of None \<Rightarrow> True | Some slot \<Rightarrow> out_of_date slot)"

definition velocity_out_of_date ::
  "('a, 'pc, 'vc) multibody_tree_system \<Rightarrow> ('a, 'pc, 'vc) multibody_tree_context \<Rightarrow> bool" where
  "velocity_out_of_date s ctx =
     (case velocity_slot s ctx of None \<Rightarrow> True | Some slot \<Rightarrow> out_of_date slot)"

subsection \<open>Notions used in the proofs\<close>

text \<open>
  The two entries that \<^verbatim>\<open>Finalize\<close> declares, the contexts with exactly the two
  slots of these entries, the systems whose only entries are these two, and the contexts
  whose position slot, when valid, holds the position kinematics of the context.
\<close>

definition position_kinematics_entry ::
  "('a, 'pc, 'vc) kinematics \<Rightarrow> 'a multibody_tree \<Rightarrow> nat \<Rightarrow> ('a, 'pc, 'vc) cache_entry" where
  "position_kinematics_entry K t n =
     \<lparr>description = ''position kinematics'', alloc = position_kinematics_alloc K t,
      calc = position_kinematics_calc K t, prerequisites = [configuration_ticket],
      cache_index = n\<rparr>"

definition velocity_kinematics_entry ::
  "('a, 'pc, 'vc) kinematics \<Rightarrow> 'a multibody_tree \<Rightarrow> ('a, 'pc, 'vc) multibody_tree_system
     \<Rightarrow> nat \<Rightarrow> ('a, 'pc, 'vc) cache_entry" where
  "velocity_kinematics_entry K t sys n =
     \<lparr>description = ''velocity kinematics'', alloc = velocity_kinematics_alloc K t,
      calc = velocity_kinematics_calc K t sys, prerequisites = [kinematics_ticket],
      cache_index = n\<rparr>"

definition kinematics_context ::
  "'a list \<Rightarrow> 'a list \<Rightarrow> 'pc \<Rightarrow> bool \<Rightarrow> nat \<Rightarrow> 'vc \<Rightarrow> bool \<Rightarrow> nat
     \<Rightarrow> ('a, 'pc, 'vc) multibody_tree_context" where
  "kinematics_context q v pc pstale pn vc vstale vn =
     \<lparr>positions = q, velocities = v,
      cache = [\<lparr>slot_value = Make_PositionKinematicsCache pc, out_of_date = pstale,
                recomputes = pn, slot_prerequisites = [configuration_ticket]\<rparr>,
               \<lparr>slot_value = Make_VelocityKinematicsCache vc, out_of_date = vstale,
                recomputes = vn, slot_prerequisites = [kinematics_ticket]\<rparr>]\<rparr>"

definition kinematics_declared ::
  "('a, 'pc, 'vc) kinematics \<Rightarrow> 'a multibody_tree \<Rightarrow> ('a, 'pc, 'vc) multibody_tree_system
     \<Rightarrow> bool" where
  "kinematics_declared K t sys \<longleftrightarrow>
     tree' sys = Some t \<and>
     position_kinematics_cache_index' sys = Some 0 \<and>
     velocity_kinematics_cache_index' sys = Some (Suc 0) \<and>
     (\<exists>s4. cache_entries sys =
             [position_kinematics_entry K t 0, velocity_kinematics_entry K t s4 (Suc 0)] \<and>
           position_kinematics_cache_index' s4 = Some 0 \<and>
           cache_entries s4 = [position_kinematics_entry K t 0])"

definition position_current ::
  "('a, 'pc, 'vc) kinematics \<Rightarrow> 'a multibody_tree \<Rightarrow> ('a, 'pc, 'vc) multibody_tree_context
     \<Rightarrow> bool" where
  "position_current K t ctx \<longleftrightarrow>
     (\<exists>q v pc ps pn vc vs vn.
        ctx = kinematics_context q v pc ps pn vc vs vn \<and>
        (\<not> ps \<longrightarrow> pc = CalcPositionKinematicsCache K t ctx))"

definition is_kinematics_context :: "('a, 'pc, 'vc) multibody_tree_context \<Rightarrow> bool" where
  "is_kinematics_context ctx \<longleftrightarrow>
     (\<exists>q v pc ps pn vc vs vn. ctx = kinematics_context q v pc ps pn vc vs vn)"

subsection \<open>A concrete model for evaluation\<close>

text \<open>
  A small instance on which the definitions can be evaluated: integer scalars, caches that
  hold one integer, a tree with four positions and three velocities, and a second scalar
  type that pairs a value with a list of derivatives.
\<close>

definition example_kinematics :: "(int, int, int) kinematics" where
  "example_kinematics =
     \<lparr>PositionKinematicsCache = (\<lambda>t. 0),
      CalcPositionKinematicsCache = (\<lambda>t c. sum_list (positions c)),
      VelocityKinematicsCache = (\<lambda>t. 0),
      CalcVelocityKinematicsCache = (\<lambda>t c pc. pc + sum_list (velocities c))\<rparr>"

definition example_tree :: "int multibody_tree" where
  "example_tree =
     \<lparr>topology_is_valid = False, num_positions = 4, num_velocities = 3, num_states = 7,
      tree_system = None, stored_quantities = [1, 2]\<rparr>"

definition example_system :: "bool \<Rightarrow> (int, int, int) multibody_tree_system" where
  "example_system d =
     \<lparr>this_address = 1, is_discrete' = d, tree' = Some (set_tree_system 1 example_tree),
      already_finalized' = False, position_kinematics_cache_index' = None,
      velocity_kinematics_cache_index' = None, declared_state = [], cache_entries = []\<rparr>"

definition example_empty_system :: "bool \<Rightarrow> (int, int, int) multibody_tree_system" where
  "example_empty_system d =
     \<lparr>this_address = 1, is_discrete' = d,
      tree' = Some (set_tree_system 1 new_MultibodyTree),
      already_finalized' = False, position_kinematics_cache_index' = None,
      velocity_kinematics_cache_index' = None, declared_state = [], cache_entries = []\<rparr>"

definition example_dual_kinematics :: "(int \<times> int list, int, int) kinematics" where
  "example_dual_kinematics =
     \<lparr>PositionKinematicsCache = (\<lambda>t. 0),
      CalcPositionKinematicsCache = (\<lambda>t c. sum_list (map fst (positions c))),
      VelocityKinematicsCache = (\<lambda>t. 0),
      CalcVelocityKinematicsCache = (\<lambda>t c pc. pc + sum_list (map fst (velocities c)))\<rparr>"

definition to_dual :: "int \<Rightarrow> int \<times> int list" where
  "to_dual x = (x, [])"

section \<open>Lifecycle\<close>

subsection \<open>What Finalize and the constructors return\<close>

lemma Finalize_InrD:
  assumes "Finalize K s = Inr s'"
  shows "\<not> already_finalized' s \<and> already_finalized' s' \<and> is_discrete' s' = is_discrete' s
    \<and> this_address s' = this_address s
    \<and> (\<exists>t0 t. tree' s = Some t0 \<and> tree' s' = Some t \<and>
           t = (if topology_is_valid t0 then t0 else tree_Finalize t0) \<and>
           topology_is_valid t \<and>
           (is_discrete' s \<or> num_states t = num_positions t + num_velocities t) \<and>
           declared_state s' = declared_state s @
             [if is_discrete' s then discrete_state (num_states t)
              else continuous_state (num_states t) (num_positions t) (num_velocities t) 0])
    \<and> map description (cache_entries s') =
          map description (cache_entries s) @ [''position kinematics'', ''velocity kinematics'']
    \<and> map prerequisites (cache_entries s') =
          map prerequisites (cache_entries s) @ [[configuration_ticket], [kinematics_ticket]]
    \<and> map cache_index (cache_entries s') =
          map cache_index (cache_entries s) @
            [length (cache_entries s), Suc (length (cache_entries s))]
    \<and> position_kinematics_cache_index' s' = Some (length (cache_entries s))
    \<and> velocity_kinematics_cache_index' s' = Some (Suc (length (cache_entries s)))"
proof (cases "tree' s")
  case None
  with assms show ?thesis by (simp add: Finalize_def split: if_splits)
next
  case (Some t0)
  show ?thesis
  proof (cases "is_discrete' s")
    case True
    with assms Some show ?thesis
      by (auto simp: Finalize_def Let_def DeclareCacheEntry_def DeclareDiscreteState_def
          tree_Finalize_def split: if_splits)
  next
    case False
    with assms Some show ?thesis
      by (auto simp: Finalize_def Let_def DeclareCacheEntry_def DeclareContinuousState_def
          tree_Finalize_def split: if_splits)
  qed
qed

lemma Finalize_InrI:
  assumes "\<not> already_finalized' s" and "tree' s = Some t0"
    and "is_discrete' s \<or> num_states t0 = num_positions t0 + num_velocities t0"
  shows "\<exists>s'. Finalize K s = Inr s'"
  using assms
  by (cases "is_discrete' s")
     (simp_all add: Finalize_def Let_def DeclareCacheEntry_def DeclareDiscreteState_def
        DeclareContinuousState_def tree_Finalize_def)

lemma constructor_with_tree:
  "MultibodyTreeSystem K this ok (Some t) d = Inr s \<longleftrightarrow>
   Finalize K \<lparr>this_address = this, is_discrete' = d, tree' = Some (set_tree_system this t),
               already_finalized' = False, position_kinematics_cache_index' = None,
               velocity_kinematics_cache_index' = None, declared_state = [],
               cache_entries = []\<rparr> = Inr s"
  by (simp add: MultibodyTreeSystem_def Let_def split: sum.splits prod.splits)

lemma constructor_without_tree:
  "MultibodyTreeSystem K this ok None d =
     (if ok then Inr \<lparr>this_address = this, is_discrete' = d,
                      tree' = Some (set_tree_system this new_MultibodyTree),
                      already_finalized' = False, position_kinematics_cache_index' = None,
                      velocity_kinematics_cache_index' = None, declared_state = [],
                      cache_entries = []\<rparr>
      else Inl (logic_error ''MultibodyTreeSystem(): the supplied MultibodyTree was null.''))"
  by (simp add: MultibodyTreeSystem_def Let_def)

lemma example_system_Finalize: "\<exists>s'. Finalize example_kinematics (example_system d) = Inr s'"
  by (rule Finalize_InrI [where ?t0.0 = "set_tree_system 1 example_tree"])
     (simp_all add: example_system_def example_tree_def set_tree_system_def)

text \<open>
  C1: a call of \<^verbatim>\<open>Finalize()\<close> that returns marks the instance finalized, and every
  later call on that instance throws the logic error for repeated calls and leaves the
  object as it was: no state and no cache entry is declared again.
\<close>

theorem Finalize_twice_fails:
  "(Finalize K s = Inr s' \<longrightarrow>
      already_finalized' s' \<and>
      Finalize K s' =
        Inl (logic_error ''MultibodyTreeSystem::Finalize(): repeated calls not allowed.'', s')) \<and>
   (MultibodyTreeSystem K this ok (Some t) d = Inr s' \<longrightarrow>
      already_finalized' s' \<and>
      Finalize K s' =
        Inl (logic_error ''MultibodyTreeSystem::Finalize(): repeated calls not allowed.'', s'))"
proof -
  have again: "already_finalized' s' \<and>
      Finalize K s' =
        Inl (logic_error ''MultibodyTreeSystem::Finalize(): repeated calls not allowed.'', s')"
    if "Finalize K s = Inr s'" for s
  proof -
    from that have af: "already_finalized' s'"
      using Finalize_InrD by blast
    show ?thesis
      unfolding Finalize_def using af by simp
  qed
  then show ?thesis
    unfolding constructor_with_tree by blast
qed

theorem Finalize_twice_fails_witness:
  "\<not> isl (Finalize example_kinematics (example_system False)) \<and>
   already_finalized' (projr (Finalize example_kinematics (example_system False))) \<and>
   Finalize example_kinematics (projr (Finalize example_kinematics (example_system False))) =
     Inl (logic_error ''MultibodyTreeSystem::Finalize(): repeated calls not allowed.'',
          projr (Finalize example_kinematics (example_system False))) \<and>
   \<not> isl (MultibodyTreeSystem example_kinematics 1 False (Some example_tree) False) \<and>
   isl (Finalize example_kinematics
          (projr (MultibodyTreeSystem example_kinematics 1 False (Some example_tree) False)))"
proof -
  obtain s' where e: "Finalize example_kinematics (example_system False) = Inr s'"
    using example_system_Finalize by blast
  have c: "MultibodyTreeSystem example_kinematics 1 False (Some example_tree) False = Inr s'"
    using e by (simp add: constructor_with_tree example_system_def)
  from Finalize_twice_fails
    [of example_kinematics "example_system False" s' 1 False example_tree False] e c
  show ?thesis by simp
qed

text \<open>
  C5: \<^verbatim>\<open>mutable_tree()\<close> on a system that owns a tree throws a logic error when the
  tree's topology is valid and returns the tree otherwise; in particular it throws on every
  system on which \<^verbatim>\<open>Finalize()\<close> has returned.
\<close>

theorem mutable_tree_guard:
  "(tree' s = Some t \<longrightarrow>
      mutable_tree s =
        (if topology_is_valid t
         then Inl (logic_error
           ''MultibodyTreeSystem::mutable_tree(): the contained MultibodyTree is finalized already.'')
         else Inr t)) \<and>
   (Finalize K s0 = Inr s \<longrightarrow>
      mutable_tree s =
        Inl (logic_error
          ''MultibodyTreeSystem::mutable_tree(): the contained MultibodyTree is finalized already.''))"
proof (intro conjI impI)
  assume "tree' s = Some t"
  then show "mutable_tree s =
        (if topology_is_valid t
         then Inl (logic_error
           ''MultibodyTreeSystem::mutable_tree(): the contained MultibodyTree is finalized already.'')
         else Inr t)"
    by (simp add: mutable_tree_def)
next
  assume "Finalize K s0 = Inr s"
  then obtain t where "tree' s = Some t" "topology_is_valid t"
    using Finalize_InrD by blast
  then show "mutable_tree s =
        Inl (logic_error
          ''MultibodyTreeSystem::mutable_tree(): the contained MultibodyTree is finalized already.'')"
    by (simp add: mutable_tree_def tree_Finalize_def)
qed

theorem mutable_tree_guard_witness:
  "tree' (example_system True) = Some (set_tree_system 1 example_tree) \<and>
   mutable_tree (example_system True) = Inr (set_tree_system 1 example_tree) \<and>
   \<not> isl (Finalize example_kinematics (example_system True)) \<and>
   tree' (projr (Finalize example_kinematics (example_system True))) =
     Some (tree_Finalize (set_tree_system 1 example_tree)) \<and>
   mutable_tree (projr (Finalize example_kinematics (example_system True))) =
     Inl (logic_error
       ''MultibodyTreeSystem::mutable_tree(): the contained MultibodyTree is finalized already.'')"
proof -
  obtain s' where e: "Finalize example_kinematics (example_system True) = Inr s'"
    using example_system_Finalize by blast
  have t: "tree' (example_system True) = Some (set_tree_system 1 example_tree)"
    by (simp add: example_system_def)
  have t': "tree' s' = Some (tree_Finalize (set_tree_system 1 example_tree))"
    using Finalize_InrD [OF e] t by (simp add: set_tree_system_def example_tree_def tree_Finalize_def)
  have a: "mutable_tree (example_system True) = Inr (set_tree_system 1 example_tree)"
    using mutable_tree_guard [of "example_system True" "set_tree_system 1 example_tree"] t
    by (simp add: set_tree_system_def example_tree_def)
  have b: "mutable_tree s' =
     Inl (logic_error
       ''MultibodyTreeSystem::mutable_tree(): the contained MultibodyTree is finalized already.'')"
    using mutable_tree_guard [of s' "tree_Finalize (set_tree_system 1 example_tree)"
        example_kinematics "example_system True"] e t'
    by (simp add: tree_Finalize_def)
  show ?thesis using t t' a b by (simp add: e)
qed

text \<open>
  C9: the constructor given a null tree with null not allowed throws a logic error; no
  object results, so no model is owned, no state declared and no cache entry installed.
\<close>

theorem constructor_rejects_null:
  "MultibodyTreeSystem K this False None d =
     Inl (logic_error ''MultibodyTreeSystem(): the supplied MultibodyTree was null.'') \<and>
   isl (MultibodyTreeSystem K this False None d)"
  by (simp add: constructor_without_tree)


text \<open>
  C10: a constructor that returns leaves a system that owns a tree whose back-pointer is
  the system's address; given a null tree (allowed), that tree is a fresh empty one, not
  finalized, with nothing declared. \<^verbatim>\<open>mutable_tree()\<close> then never fails its
  non-null demand and \<^verbatim>\<open>Finalize()\<close> never dereferences a null tree.
\<close>

theorem constructor_owns_model:
  "(MultibodyTreeSystem K this ok tr d = Inr s \<longrightarrow>
      (\<exists>t. tree' s = Some t \<and> tree_system t = Some this \<and>
           (tr = None \<longrightarrow>
              t = set_tree_system this new_MultibodyTree \<and> \<not> topology_is_valid t \<and>
              \<not> already_finalized' s \<and> declared_state s = [] \<and> cache_entries s = [])) \<and>
      mutable_tree s \<noteq> Inl demand_failed \<and>
      (\<forall>s'. Finalize K s \<noteq> Inl (null_dereference, s'))) \<and>
   (MultibodyTreeSystem_converting K this conv other = Inr s \<longrightarrow>
      (\<exists>t. tree' s = Some t \<and> tree_system t = Some this))"
proof -
  have main: "\<exists>t. tree' s = Some t \<and> tree_system t = Some this \<and>
           (tr = None \<longrightarrow>
              t = set_tree_system this new_MultibodyTree \<and> \<not> topology_is_valid t \<and>
              \<not> already_finalized' s \<and> declared_state s = [] \<and> cache_entries s = [])"
    if c: "MultibodyTreeSystem K this ok tr d = Inr s" for tr ok d
  proof (cases tr)
    case None
    with c show ?thesis
      by (auto simp: constructor_without_tree set_tree_system_def new_MultibodyTree_def
          split: if_splits)
  next
    case (Some t1)
    with c have "Finalize K \<lparr>this_address = this, is_discrete' = d,
               tree' = Some (set_tree_system this t1),
               already_finalized' = False, position_kinematics_cache_index' = None,
               velocity_kinematics_cache_index' = None, declared_state = [],
               cache_entries = []\<rparr> = Inr s"
      by (simp add: constructor_with_tree)
    from Finalize_InrD [OF this] Some show ?thesis
      by (auto simp: set_tree_system_def tree_Finalize_def)
  qed
  have later: "mutable_tree s \<noteq> Inl demand_failed \<and>
      (\<forall>s'. Finalize K s \<noteq> Inl (null_dereference, s'))"
    if "tree' s = Some t" for t
    using that
    by (simp add: mutable_tree_def Finalize_def Let_def DeclareContinuousState_def
        DeclareDiscreteState_def DeclareCacheEntry_def split: sum.splits)
  have conv: "\<exists>t. tree' s = Some t \<and> tree_system t = Some this"
    if c: "MultibodyTreeSystem_converting K this conv other = Inr s"
  proof -
    from c obtain t0 where
      "MultibodyTreeSystem K this False (Some (CloneToScalar conv t0)) (is_discrete' other) = Inr s"
      by (auto simp: MultibodyTreeSystem_converting_def split: option.splits)
    from main [OF this] show ?thesis by blast
  qed
  from main later conv show ?thesis by blast
qed


lemma converting_constructor:
  fixes K :: "('a, 'pc, 'vc) kinematics" and conv :: "'u \<Rightarrow> 'a"
  assumes f: "Finalize Ku s0 = Inr other"
  shows "\<exists>s t. tree' other = Some t \<and>
           MultibodyTreeSystem_converting K this conv other = Inr s \<and>
           Finalize K \<lparr>this_address = this, is_discrete' = is_discrete' other,
               tree' = Some (set_tree_system this (CloneToScalar conv t)),
               already_finalized' = False, position_kinematics_cache_index' = None,
               velocity_kinematics_cache_index' = None, declared_state = [],
               cache_entries = []\<rparr> = Inr s"
proof -
  from Finalize_InrD [OF f] obtain t0 where
    d: "is_discrete' other = is_discrete' s0" and
    t: "tree' other = Some t0" and
    n: "is_discrete' s0 \<or> num_states t0 = num_positions t0 + num_velocities t0"
    by blast
  let ?t = "t0"
  let ?s = "\<lparr>this_address = this, is_discrete' = is_discrete' other,
               tree' = Some (set_tree_system this (CloneToScalar conv ?t)),
               already_finalized' = False, position_kinematics_cache_index' = None,
               velocity_kinematics_cache_index' = None, declared_state = [],
               cache_entries = []\<rparr> :: ('a, 'pc, 'vc) multibody_tree_system"
  have "\<exists>s. Finalize K ?s = Inr s"
    by (rule Finalize_InrI [where ?t0.0 = "set_tree_system this (CloneToScalar conv ?t)"])
       (use d n in \<open>auto simp: set_tree_system_def CloneToScalar_def\<close>)
  then obtain s where s: "Finalize K ?s = Inr s" by blast
  then have "MultibodyTreeSystem_converting K this conv other = Inr s"
    by (simp add: MultibodyTreeSystem_converting_def t constructor_with_tree)
  with s t show ?thesis by blast
qed


theorem constructor_owns_model_witness:
  "MultibodyTreeSystem example_kinematics 1 True None False = Inr (example_empty_system False) \<and>
   tree' (example_empty_system False) = Some (set_tree_system 1 new_MultibodyTree) \<and>
   tree_system (set_tree_system 1 (new_MultibodyTree :: int multibody_tree)) = Some 1 \<and>
   mutable_tree (example_empty_system False) \<noteq> Inl demand_failed \<and>
   \<not> isl (MultibodyTreeSystem_converting example_dual_kinematics 2 to_dual
            (projr (Finalize example_kinematics (example_system False)))) \<and>
   (\<exists>t. tree' (projr (MultibodyTreeSystem_converting example_dual_kinematics 2 to_dual
            (projr (Finalize example_kinematics (example_system False))))) = Some t \<and>
        tree_system t = Some 2)"
proof -
  have c: "MultibodyTreeSystem example_kinematics 1 True None False =
             Inr (example_empty_system False)"
    by (simp add: constructor_without_tree example_empty_system_def)
  obtain other where o: "Finalize example_kinematics (example_system False) = Inr other"
    using example_system_Finalize by blast
  obtain s where s: "MultibodyTreeSystem_converting example_dual_kinematics 2 to_dual other = Inr s"
    using converting_constructor [OF o] by blast
  have a: "tree' (example_empty_system False) = Some (set_tree_system 1 new_MultibodyTree) \<and>
   tree_system (set_tree_system 1 (new_MultibodyTree :: int multibody_tree)) = Some 1 \<and>
   mutable_tree (example_empty_system False) \<noteq> Inl demand_failed"
    using constructor_owns_model
      [of example_kinematics 1 True None False "example_empty_system False"] c
    by auto
  have b: "\<exists>t. tree' s = Some t \<and> tree_system t = Some 2"
    using constructor_owns_model
      [where s = s and K = example_dual_kinematics and this = 2 and conv = to_dual
         and other = other] s
    by blast
  show ?thesis using a b c by (simp add: o s)
qed

text \<open>
  C6: a \<^verbatim>\<open>Finalize()\<close> that returns keeps the mode and declares exactly one state: in
  discrete mode one vector of length \<^verbatim>\<open>num_states\<close>, in continuous mode a vector of
  length \<^verbatim>\<open>num_states\<close> split into \<^verbatim>\<open>num_positions\<close>, \<^verbatim>\<open>num_velocities\<close> and
  zero miscellaneous slots. A system constructed around a tree has that one declaration
  and no other.
\<close>

theorem Finalize_declares_state:
  "(Finalize K s = Inr s' \<longrightarrow>
      is_discrete' s' = is_discrete' s \<and>
      (\<exists>t. tree' s' = Some t \<and>
           declared_state s' = declared_state s @
             [if is_discrete' s then discrete_state (num_states t)
              else continuous_state (num_states t) (num_positions t) (num_velocities t) 0])) \<and>
   (MultibodyTreeSystem K this ok (Some t0) d = Inr s' \<longrightarrow>
      is_discrete' s' = d \<and>
      (\<exists>t. tree' s' = Some t \<and>
           declared_state s' =
             [if d then discrete_state (num_states t)
              else continuous_state (num_states t) (num_positions t) (num_velocities t) 0]))"
proof -
  have fin: "is_discrete' s' = is_discrete' s \<and>
      (\<exists>t. tree' s' = Some t \<and>
           declared_state s' = declared_state s @
             [if is_discrete' s then discrete_state (num_states t)
              else continuous_state (num_states t) (num_positions t) (num_velocities t) 0])"
    if f: "Finalize K s = Inr s'" for s
    using Finalize_InrD [OF f] by (auto simp: tree_Finalize_def)
  have "is_discrete' s' = d \<and>
      (\<exists>t. tree' s' = Some t \<and>
           declared_state s' =
             [if d then discrete_state (num_states t)
              else continuous_state (num_states t) (num_positions t) (num_velocities t) 0])"
    if c: "MultibodyTreeSystem K this ok (Some t0) d = Inr s'"
    using fin [OF c [unfolded constructor_with_tree]] by simp
  with fin show ?thesis by blast
qed

theorem Finalize_declares_state_witness:
  "\<not> isl (Finalize example_kinematics (example_system True)) \<and>
   declared_state (projr (Finalize example_kinematics (example_system True))) =
     [discrete_state 7] \<and>
   \<not> isl (MultibodyTreeSystem example_kinematics 1 False (Some example_tree) False) \<and>
   declared_state (projr (MultibodyTreeSystem example_kinematics 1 False (Some example_tree) False)) =
     [continuous_state 7 4 3 0]"
proof -
  obtain s1 where e1: "Finalize example_kinematics (example_system True) = Inr s1"
    using example_system_Finalize by blast
  obtain s2 where e2: "Finalize example_kinematics (example_system False) = Inr s2"
    using example_system_Finalize by blast
  have c2: "MultibodyTreeSystem example_kinematics 1 False (Some example_tree) False = Inr s2"
    using e2 by (simp add: constructor_with_tree example_system_def)
  have t1: "tree' s1 = Some (tree_Finalize (set_tree_system 1 example_tree))"
    using Finalize_InrD [OF e1]
    by (simp add: example_system_def set_tree_system_def example_tree_def tree_Finalize_def)
  have t2: "tree' s2 = Some (tree_Finalize (set_tree_system 1 example_tree))"
    using Finalize_InrD [OF e2]
    by (simp add: example_system_def set_tree_system_def example_tree_def tree_Finalize_def)
  have d1: "declared_state s1 = [discrete_state 7]"
    using Finalize_declares_state [of example_kinematics "example_system True" s1] e1 t1
    by (simp add: example_system_def set_tree_system_def example_tree_def tree_Finalize_def)
  have d2: "declared_state s2 = [continuous_state 7 4 3 0]"
    using Finalize_declares_state
      [where K = example_kinematics and s' = s2 and this = 1 and ok = False
         and ?t0.0 = example_tree and d = False] c2 t2
    by (simp add: set_tree_system_def example_tree_def tree_Finalize_def)
  show ?thesis using d1 d2 c2 by (simp add: e1)
qed

text \<open>
  C8: from a finalized source (a system on which \<^verbatim>\<open>Finalize()\<close> has returned, with
  nothing declared before), the scalar-converting constructor returns a finalized system
  around the converted clone of the source's tree, in the source's mode, by running
  \<^verbatim>\<open>Finalize()\<close>; the three counts, the declared state and the names, tickets and
  indices of the cache entries are those of the source, and the stored quantities are the
  source's, converted.
\<close>

theorem scalar_conversion_preserves_structure:
  fixes K :: "('a, 'pc, 'vc) kinematics" and conv :: "'u \<Rightarrow> 'a"
  assumes f: "Finalize Ku s0 = Inr other"
    and fresh: "declared_state s0 = []" "cache_entries s0 = []"
  shows "\<exists>s t_other t.
     MultibodyTreeSystem_converting K this conv other = Inr s \<and>
     tree' other = Some t_other \<and> tree' s = Some t \<and>
     Finalize K \<lparr>this_address = this, is_discrete' = is_discrete' other,
         tree' = Some (set_tree_system this (CloneToScalar conv t_other)),
         already_finalized' = False, position_kinematics_cache_index' = None,
         velocity_kinematics_cache_index' = None, declared_state = [],
         cache_entries = []\<rparr> = Inr s \<and>
     already_finalized' s \<and> is_discrete' s = is_discrete' other \<and>
     topology_is_valid t_other \<and> topology_is_valid t \<and>
     num_states t = num_states t_other \<and>
     num_positions t = num_positions t_other \<and>
     num_velocities t = num_velocities t_other \<and>
     stored_quantities t = map conv (stored_quantities t_other) \<and>
     declared_state s = declared_state other \<and>
     map description (cache_entries s) = map description (cache_entries other) \<and>
     map prerequisites (cache_entries s) = map prerequisites (cache_entries other) \<and>
     map cache_index (cache_entries s) = map cache_index (cache_entries other) \<and>
     position_kinematics_cache_index' s = position_kinematics_cache_index' other \<and>
     velocity_kinematics_cache_index' s = velocity_kinematics_cache_index' other"
proof -
  from converting_constructor [OF f, of K this conv] obtain s t_other where
    c: "MultibodyTreeSystem_converting K this conv other = Inr s" and
    t: "tree' other = Some t_other" and
    g: "Finalize K \<lparr>this_address = this, is_discrete' = is_discrete' other,
         tree' = Some (set_tree_system this (CloneToScalar conv t_other)),
         already_finalized' = False, position_kinematics_cache_index' = None,
         velocity_kinematics_cache_index' = None, declared_state = [],
         cache_entries = []\<rparr> = Inr s"
    by blast
  have v: "topology_is_valid t_other"
    using Finalize_InrD [OF f] t by auto
  have o: "declared_state other =
             [if is_discrete' other then discrete_state (num_states t_other)
              else continuous_state (num_states t_other) (num_positions t_other)
                     (num_velocities t_other) 0]"
    using Finalize_InrD [OF f] t fresh by auto
  have oc: "map description (cache_entries other) = [''position kinematics'', ''velocity kinematics'']"
    "map prerequisites (cache_entries other) = [[configuration_ticket], [kinematics_ticket]]"
    "map cache_index (cache_entries other) = [0, Suc 0]"
    "position_kinematics_cache_index' other = Some 0"
    "velocity_kinematics_cache_index' other = Some (Suc 0)"
    using Finalize_InrD [OF f] fresh by simp_all
  have st: "tree' s = Some (set_tree_system this (CloneToScalar conv t_other))"
    using Finalize_InrD [OF g] v by (simp add: set_tree_system_def CloneToScalar_def)
  have sd: "declared_state s = declared_state other" "already_finalized' s"
    "is_discrete' s = is_discrete' other"
    using Finalize_InrD [OF g] o v by (simp_all add: set_tree_system_def CloneToScalar_def)
  have sc: "map description (cache_entries s) = [''position kinematics'', ''velocity kinematics'']"
    "map prerequisites (cache_entries s) = [[configuration_ticket], [kinematics_ticket]]"
    "map cache_index (cache_entries s) = [0, Suc 0]"
    "position_kinematics_cache_index' s = Some 0"
    "velocity_kinematics_cache_index' s = Some (Suc 0)"
    using Finalize_InrD [OF g] by simp_all
  show ?thesis
    apply (intro exI [of _ s] exI [of _ t_other]
        exI [of _ "set_tree_system this (CloneToScalar conv t_other)"])
    using c t g v st sd oc sc
    by (simp add: set_tree_system_def CloneToScalar_def)
qed

theorem scalar_conversion_preserves_structure_witness:
  "\<not> isl (Finalize example_kinematics (example_system False)) \<and>
   declared_state (example_system False) = [] \<and> cache_entries (example_system False) = [] \<and>
   \<not> isl (MultibodyTreeSystem_converting example_dual_kinematics 2 to_dual
            (projr (Finalize example_kinematics (example_system False)))) \<and>
   declared_state (projr (MultibodyTreeSystem_converting example_dual_kinematics 2 to_dual
            (projr (Finalize example_kinematics (example_system False))))) =
     [continuous_state 7 4 3 0] \<and>
   map (map_option stored_quantities \<circ> tree')
     [projr (MultibodyTreeSystem_converting example_dual_kinematics 2 to_dual
            (projr (Finalize example_kinematics (example_system False))))] =
     [Some [(1, []), (2, [])]]"
proof -
  obtain other where o: "Finalize example_kinematics (example_system False) = Inr other"
    using example_system_Finalize by blast
  have fr: "declared_state (example_system False) = []" "cache_entries (example_system False) = []"
    by (simp_all add: example_system_def)
  have ot: "tree' other = Some (tree_Finalize (set_tree_system 1 example_tree))"
    and od: "declared_state other = [continuous_state 7 4 3 0]"
    using Finalize_InrD [OF o]
    by (simp_all add: example_system_def set_tree_system_def example_tree_def tree_Finalize_def)
  from scalar_conversion_preserves_structure
    [OF o fr, of example_dual_kinematics 2 to_dual]
  obtain s t_other t where
    c: "MultibodyTreeSystem_converting example_dual_kinematics 2 to_dual other = Inr s" and
    t: "tree' other = Some t_other" "tree' s = Some t" and
    q: "stored_quantities t = map to_dual (stored_quantities t_other)" and
    d: "declared_state s = declared_state other"
    by blast
  from t ot have "t_other = tree_Finalize (set_tree_system 1 example_tree)" by simp
  with q have "stored_quantities t = [(1, []), (2, [])]"
    by (simp add: tree_Finalize_def set_tree_system_def example_tree_def to_dual_def)
  with t d od fr show ?thesis by (simp add: o c)
qed


section \<open>The kinematics caches\<close>

subsection \<open>The entries of a finalized system on a two-slot context\<close>

lemma Finalize_cache_entries:
  assumes "Finalize K s0 = Inr sys" and "cache_entries s0 = []" and "tree' sys = Some t"
  shows "cache_entries sys =
           [position_kinematics_entry K t 0,
            velocity_kinematics_entry K t
              (s0\<lparr>tree' := Some t, declared_state := declared_state sys,
                   cache_entries := [position_kinematics_entry K t 0],
                   position_kinematics_cache_index' := Some 0\<rparr>) (Suc 0)]"
proof (cases "tree' s0")
  case None
  with assms show ?thesis by (simp add: Finalize_def split: if_splits)
next
  case (Some t0)
  show ?thesis
  proof (cases "is_discrete' s0")
    case True
    with assms Some show ?thesis
      by (auto simp: Finalize_def Let_def DeclareCacheEntry_def DeclareDiscreteState_def
          position_kinematics_entry_def velocity_kinematics_entry_def split: if_splits)
  next
    case False
    with assms Some show ?thesis
      by (auto simp: Finalize_def Let_def DeclareCacheEntry_def DeclareContinuousState_def
          position_kinematics_entry_def velocity_kinematics_entry_def split: if_splits)
  qed
qed

lemma Eval_position_entry:
  "Eval (position_kinematics_entry K t 0) (kinematics_context q v pc ps pn vc vs vn) =
     Inr (if ps
          then (Make_PositionKinematicsCache
                  (CalcPositionKinematicsCache K t (kinematics_context q v pc ps pn vc vs vn)),
                kinematics_context q v
                  (CalcPositionKinematicsCache K t (kinematics_context q v pc ps pn vc vs vn))
                  False (Suc pn) vc vs vn)
          else (Make_PositionKinematicsCache pc, kinematics_context q v pc ps pn vc vs vn))"
  by (simp add: Eval_def position_kinematics_entry_def kinematics_context_def
      position_kinematics_calc_def Let_def)


lemma EvalPositionKinematics_entry:
  assumes "position_kinematics_cache_index' s = Some 0"
    and "cache_entries s = position_kinematics_entry K t 0 # rest"
  shows "EvalPositionKinematics s (kinematics_context q v pc ps pn vc vs vn) =
     Inr (if ps
          then (CalcPositionKinematicsCache K t (kinematics_context q v pc ps pn vc vs vn),
                kinematics_context q v
                  (CalcPositionKinematicsCache K t (kinematics_context q v pc ps pn vc vs vn))
                  False (Suc pn) vc vs vn)
          else (pc, kinematics_context q v pc ps pn vc vs vn))"
  using assms
  by (simp add: EvalPositionKinematics_def get_cache_entry_def Eval_position_entry)

lemma kinematics_context_cache:
  "cache (kinematics_context q v pc ps pn vc vs vn) =
     [\<lparr>slot_value = Make_PositionKinematicsCache pc, out_of_date = ps,
       recomputes = pn, slot_prerequisites = [configuration_ticket]\<rparr>,
      \<lparr>slot_value = Make_VelocityKinematicsCache vc, out_of_date = vs,
       recomputes = vn, slot_prerequisites = [kinematics_ticket]\<rparr>]"
  by (simp add: kinematics_context_def)

lemma kinematics_context_update:
  "(kinematics_context q v pc ps pn vc vs vn)
     \<lparr>cache := [\<lparr>slot_value = Make_PositionKinematicsCache pc', out_of_date = ps',
                  recomputes = pn', slot_prerequisites = [configuration_ticket]\<rparr>,
                 \<lparr>slot_value = Make_VelocityKinematicsCache vc', out_of_date = vs',
                  recomputes = vn', slot_prerequisites = [kinematics_ticket]\<rparr>]\<rparr> =
   kinematics_context q v pc' ps' pn' vc' vs' vn'"
  by (simp add: kinematics_context_def)

lemma Eval_velocity_entry:
  assumes "position_kinematics_cache_index' s4 = Some 0"
    and "cache_entries s4 = position_kinematics_entry K t 0 # rest"
  shows "Eval (velocity_kinematics_entry K t s4 (Suc 0))
           (kinematics_context q v pc ps pn vc vs vn) =
     Inr (if vs
          then (let pc' = (if ps then CalcPositionKinematicsCache K t
                                        (kinematics_context q v pc ps pn vc vs vn)
                           else pc);
                    pn' = (if ps then Suc pn else pn);
                    vc' = CalcVelocityKinematicsCache K t
                            (kinematics_context q v pc' False pn' vc vs vn) pc'
                in (Make_VelocityKinematicsCache vc',
                    kinematics_context q v pc' False pn' vc' False (Suc vn)))
          else (Make_VelocityKinematicsCache vc, kinematics_context q v pc ps pn vc vs vn))"
proof -
  have c: "calc (velocity_kinematics_entry K t s4 (Suc 0)) = velocity_kinematics_calc K t s4"
    "cache_index (velocity_kinematics_entry K t s4 (Suc 0)) = Suc 0"
    by (simp_all add: velocity_kinematics_entry_def)
  show ?thesis
    unfolding Eval_def c velocity_kinematics_calc_def
    by (simp add: EvalPositionKinematics_entry [OF assms] kinematics_context_cache
        kinematics_context_update Let_def)
qed


lemma Finalize_kinematics_declared:
  assumes f: "Finalize K s0 = Inr sys" and e: "cache_entries s0 = []"
  shows "\<exists>t. tree' sys = Some t \<and> topology_is_valid t \<and> kinematics_declared K t sys"
proof -
  from Finalize_InrD [OF f] e obtain t where
    t: "tree' sys = Some t" "topology_is_valid t" and
    i: "position_kinematics_cache_index' sys = Some 0"
       "velocity_kinematics_cache_index' sys = Some (Suc 0)"
    by auto
  from Finalize_cache_entries [OF f e t(1)] t i have "kinematics_declared K t sys"
    unfolding kinematics_declared_def by auto
  with t show ?thesis by blast
qed

subsection \<open>Finalize on a system constructed without a tree\<close>

text \<open>
  C4, as stated, fails: on the system constructed from a null tree with null allowed, the
  first \<^verbatim>\<open>Finalize()\<close> returns normally (here in discrete mode, where the state
  declaration cannot fail).
\<close>

theorem Finalize_after_null_construction_counterexample:
  "MultibodyTreeSystem example_kinematics 1 True None True = Inr (example_empty_system True) \<and>
   \<not> isl (Finalize example_kinematics (example_empty_system True))"
proof -
  have "\<exists>s'. Finalize example_kinematics (example_empty_system True) = Inr s'"
    by (rule Finalize_InrI [where ?t0.0 = "set_tree_system 1 new_MultibodyTree"])
       (simp_all add: example_empty_system_def)
  then show ?thesis
    by (auto simp: constructor_without_tree example_empty_system_def)
qed

text \<open>
  C4, amended: a system constructed from a null tree with null allowed owns a fresh empty
  unfinalized tree with nothing declared; the first \<^verbatim>\<open>Finalize()\<close> on it returns,
  in either mode: it finalizes that tree, declares the one state of the mode, of length
  zero, and the position and velocity kinematics entries with their tickets and indices,
  and marks the instance finalized. Only the second call throws a logic error.
\<close>

theorem Finalize_after_null_construction:
  "\<exists>s s' t.
      MultibodyTreeSystem K this True None d = Inr s \<and>
      tree' s = Some (set_tree_system this new_MultibodyTree) \<and>
      \<not> already_finalized' s \<and> declared_state s = [] \<and> cache_entries s = [] \<and>
      Finalize K s = Inr s' \<and>
      already_finalized' s' \<and> is_discrete' s' = d \<and>
      t = tree_Finalize (set_tree_system this new_MultibodyTree) \<and>
      tree' s' = Some t \<and> topology_is_valid t \<and> tree_system t = Some this \<and>
      num_states t = 0 \<and> num_positions t = 0 \<and> num_velocities t = 0 \<and>
      declared_state s' = [if d then discrete_state 0 else continuous_state 0 0 0 0] \<and>
      map description (cache_entries s') = [''position kinematics'', ''velocity kinematics''] \<and>
      map prerequisites (cache_entries s') = [[configuration_ticket], [kinematics_ticket]] \<and>
      map cache_index (cache_entries s') = [0, Suc 0] \<and>
      position_kinematics_cache_index' s' = Some 0 \<and>
      velocity_kinematics_cache_index' s' = Some (Suc 0) \<and>
      kinematics_declared K t s' \<and>
      Finalize K s' =
        Inl (logic_error ''MultibodyTreeSystem::Finalize(): repeated calls not allowed.'', s')"
proof -
  let ?s = "\<lparr>this_address = this, is_discrete' = d,
              tree' = Some (set_tree_system this new_MultibodyTree),
              already_finalized' = False, position_kinematics_cache_index' = None,
              velocity_kinematics_cache_index' = None, declared_state = [],
              cache_entries = []\<rparr> :: ('a, 'b, 'c) multibody_tree_system"
  let ?t = "tree_Finalize (set_tree_system this new_MultibodyTree) :: 'a multibody_tree"
  have c: "MultibodyTreeSystem K this True None d = Inr ?s"
    by (simp add: constructor_without_tree)
  have "\<exists>s'. Finalize K ?s = Inr s'"
    by (rule Finalize_InrI [where ?t0.0 = "set_tree_system this new_MultibodyTree"])
       (simp_all add: new_MultibodyTree_def set_tree_system_def)
  then obtain s' where f: "Finalize K ?s = Inr s'" by blast
  from Finalize_InrD [OF f] have af: "already_finalized' s'"
    and md: "is_discrete' s' = d"
    and t: "tree' s' = Some ?t"
    and ds: "declared_state s' = [if d then discrete_state 0 else continuous_state 0 0 0 0]"
    and ce: "map description (cache_entries s') = [''position kinematics'', ''velocity kinematics'']"
       "map prerequisites (cache_entries s') = [[configuration_ticket], [kinematics_ticket]]"
       "map cache_index (cache_entries s') = [0, Suc 0]"
       "position_kinematics_cache_index' s' = Some 0"
       "velocity_kinematics_cache_index' s' = Some (Suc 0)"
    by (simp_all add: new_MultibodyTree_def set_tree_system_def tree_Finalize_def)
  from Finalize_kinematics_declared [OF f] t have kd: "kinematics_declared K ?t s'"
    by auto
  have again: "Finalize K s' =
        Inl (logic_error ''MultibodyTreeSystem::Finalize(): repeated calls not allowed.'', s')"
    unfolding Finalize_def using af by simp
  have v: "topology_is_valid ?t" "tree_system ?t = Some this"
    "num_states ?t = 0" "num_positions ?t = 0" "num_velocities ?t = 0"
    by (simp_all add: tree_Finalize_def set_tree_system_def new_MultibodyTree_def)
  show ?thesis
  proof (rule exI [of _ ?s], rule exI [of _ s'], rule exI [of _ ?t])
    show "MultibodyTreeSystem K this True None d = Inr ?s \<and>
      tree' ?s = Some (set_tree_system this new_MultibodyTree) \<and>
      \<not> already_finalized' ?s \<and> declared_state ?s = [] \<and> cache_entries ?s = [] \<and>
      Finalize K ?s = Inr s' \<and>
      already_finalized' s' \<and> is_discrete' s' = d \<and>
      ?t = tree_Finalize (set_tree_system this new_MultibodyTree) \<and>
      tree' s' = Some ?t \<and> topology_is_valid ?t \<and> tree_system ?t = Some this \<and>
      num_states ?t = 0 \<and> num_positions ?t = 0 \<and> num_velocities ?t = 0 \<and>
      declared_state s' = [if d then discrete_state 0 else continuous_state 0 0 0 0] \<and>
      map description (cache_entries s') = [''position kinematics'', ''velocity kinematics''] \<and>
      map prerequisites (cache_entries s') = [[configuration_ticket], [kinematics_ticket]] \<and>
      map cache_index (cache_entries s') = [0, Suc 0] \<and>
      position_kinematics_cache_index' s' = Some 0 \<and>
      velocity_kinematics_cache_index' s' = Some (Suc 0) \<and>
      kinematics_declared K ?t s' \<and>
      Finalize K s' =
        Inl (logic_error ''MultibodyTreeSystem::Finalize(): repeated calls not allowed.'', s')"
      using c f af md t ds ce kd again v by simp
  qed
qed

subsection \<open>Reading and invalidating the two slots\<close>

lemma declared_EvalPositionKinematics:
  assumes "kinematics_declared K t sys"
  shows "EvalPositionKinematics sys (kinematics_context q v pc ps pn vc vs vn) =
     Inr (if ps
          then (CalcPositionKinematicsCache K t (kinematics_context q v pc ps pn vc vs vn),
                kinematics_context q v
                  (CalcPositionKinematicsCache K t (kinematics_context q v pc ps pn vc vs vn))
                  False (Suc pn) vc vs vn)
          else (pc, kinematics_context q v pc ps pn vc vs vn))"
proof -
  from assms obtain rest where
    "position_kinematics_cache_index' sys = Some 0"
    "cache_entries sys = position_kinematics_entry K t 0 # rest"
    unfolding kinematics_declared_def by auto
  then show ?thesis by (rule EvalPositionKinematics_entry)
qed

lemma declared_EvalVelocityKinematics:
  assumes "kinematics_declared K t sys"
  shows "EvalVelocityKinematics sys (kinematics_context q v pc ps pn vc vs vn) =
     Inr (if vs
          then (let pc' = (if ps then CalcPositionKinematicsCache K t
                                        (kinematics_context q v pc ps pn vc vs vn)
                           else pc);
                    pn' = (if ps then Suc pn else pn);
                    vc' = CalcVelocityKinematicsCache K t
                            (kinematics_context q v pc' False pn' vc vs vn) pc'
                in (vc', kinematics_context q v pc' False pn' vc' False (Suc vn)))
          else (vc, kinematics_context q v pc ps pn vc vs vn))"
proof -
  from assms obtain s4 where
    i: "velocity_kinematics_cache_index' sys = Some (Suc 0)" and
    c: "cache_entries sys =
          [position_kinematics_entry K t 0, velocity_kinematics_entry K t s4 (Suc 0)]" and
    s4: "position_kinematics_cache_index' s4 = Some 0"
        "cache_entries s4 = position_kinematics_entry K t 0 # []"
    unfolding kinematics_declared_def by auto
  show ?thesis
    by (simp add: EvalVelocityKinematics_def get_cache_entry_def i c
        Eval_velocity_entry [OF s4] Let_def)
qed

lemma SetPositions_kinematics_context:
  "SetPositions q' (kinematics_context q v pc ps pn vc vs vn) =
     kinematics_context q' v pc True pn vc True vn"
  by (simp add: SetPositions_def note_change_def kinematics_context_def invalidated_by_def)

lemma SetVelocities_kinematics_context:
  "SetVelocities v' (kinematics_context q v pc ps pn vc vs vn) =
     kinematics_context q v' pc ps pn vc True vn"
  by (simp add: SetVelocities_def note_change_def kinematics_context_def invalidated_by_def)

lemma declared_AllocateContext:
  assumes "kinematics_declared K t sys"
  shows "AllocateContext sys =
     Inr (kinematics_context (replicate (num_positions t) 0) (replicate (num_velocities t) 0)
            (PositionKinematicsCache K t) True 0 (VelocityKinematicsCache K t) True 0)"
  using assms unfolding kinematics_declared_def
  by (auto simp: AllocateContext_def DoMakeLeafContext_def kinematics_context_def
      position_kinematics_entry_def velocity_kinematics_entry_def
      position_kinematics_alloc_def velocity_kinematics_alloc_def)

lemma declared_observers:
  assumes "kinematics_declared K t sys"
  shows "position_recomputes sys (kinematics_context q v pc ps pn vc vs vn) = pn"
    and "velocity_recomputes sys (kinematics_context q v pc ps pn vc vs vn) = vn"
    and "position_out_of_date sys (kinematics_context q v pc ps pn vc vs vn) = ps"
    and "velocity_out_of_date sys (kinematics_context q v pc ps pn vc vs vn) = vs"
    and "position_slot sys (kinematics_context q v pc ps pn vc vs vn) =
           Some \<lparr>slot_value = Make_PositionKinematicsCache pc, out_of_date = ps,
                 recomputes = pn, slot_prerequisites = [configuration_ticket]\<rparr>"
    and "velocity_slot sys (kinematics_context q v pc ps pn vc vs vn) =
           Some \<lparr>slot_value = Make_VelocityKinematicsCache vc, out_of_date = vs,
                 recomputes = vn, slot_prerequisites = [kinematics_ticket]\<rparr>"
  using assms unfolding kinematics_declared_def
  by (simp_all add: position_recomputes_def velocity_recomputes_def position_out_of_date_def
      velocity_out_of_date_def position_slot_def velocity_slot_def slot_at_def
      kinematics_context_def)

lemma declared_perform:
  assumes "kinematics_declared K t sys"
  shows "perform sys (mutate_positions q') (kinematics_context q v pc ps pn vc vs vn) =
           Inr (kinematics_context q' v pc True pn vc True vn)"
    and "perform sys (mutate_velocities v') (kinematics_context q v pc ps pn vc vs vn) =
           Inr (kinematics_context q v' pc ps pn vc True vn)"
    and "perform sys pull_position_kinematics (kinematics_context q v pc ps pn vc vs vn) =
           Inr (if ps
                then kinematics_context q v
                       (CalcPositionKinematicsCache K t (kinematics_context q v pc ps pn vc vs vn))
                       False (Suc pn) vc vs vn
                else kinematics_context q v pc ps pn vc vs vn)"
    and "perform sys pull_velocity_kinematics (kinematics_context q v pc ps pn vc vs vn) =
           Inr (if vs
                then (let pc' = (if ps then CalcPositionKinematicsCache K t
                                              (kinematics_context q v pc ps pn vc vs vn)
                                 else pc);
                          pn' = (if ps then Suc pn else pn);
                          vc' = CalcVelocityKinematicsCache K t
                                  (kinematics_context q v pc' False pn' vc vs vn) pc'
                      in kinematics_context q v pc' False pn' vc' False (Suc vn))
                else kinematics_context q v pc ps pn vc vs vn)"
  by (simp_all add: SetPositions_kinematics_context SetVelocities_kinematics_context
      declared_EvalPositionKinematics [OF assms] declared_EvalVelocityKinematics [OF assms]
      Let_def)


lemma pure_kinematics_context:
  assumes "\<forall>c c'. positions c = positions c' \<longrightarrow>
             CalcPositionKinematicsCache K t c = CalcPositionKinematicsCache K t c'"
  shows "CalcPositionKinematicsCache K t (kinematics_context q v pc ps pn vc vs vn) =
         CalcPositionKinematicsCache K t \<lparr>positions = q, velocities = [], cache = []\<rparr>"
  using assms by (simp add: kinematics_context_def)

lemma position_currentI:
  assumes "\<not> ps \<Longrightarrow>
             pc = CalcPositionKinematicsCache K t (kinematics_context q v pc ps pn vc vs vn)"
  shows "position_current K t (kinematics_context q v pc ps pn vc vs vn)"
  unfolding position_current_def using assms by blast

lemma perform_position_current:
  assumes d: "kinematics_declared K t sys"
    and pure: "\<forall>c c'. positions c = positions c' \<longrightarrow>
             CalcPositionKinematicsCache K t c = CalcPositionKinematicsCache K t c'"
    and inv: "position_current K t ctx"
  shows "\<exists>ctx'. perform sys a ctx = Inr ctx' \<and> position_current K t ctx'"
proof -
  note canon = pure_kinematics_context [OF pure]
  from inv obtain q v pc ps pn vc vs vn where
    c: "ctx = kinematics_context q v pc ps pn vc vs vn" and
    p0: "\<not> ps \<longrightarrow> pc = CalcPositionKinematicsCache K t ctx"
    unfolding position_current_def by blast
  from p0 have
    p: "\<not> ps \<longrightarrow> pc = CalcPositionKinematicsCache K t \<lparr>positions = q, velocities = [], cache = []\<rparr>"
    by (simp add: c canon)
  show ?thesis
  proof (cases a)
    case (mutate_positions q')
    have "position_current K t (kinematics_context q' v pc True pn vc True vn)"
      by (rule position_currentI) simp
    then show ?thesis by (simp add: c mutate_positions declared_perform [OF d] del: perform.simps)
  next
    case (mutate_velocities v')
    have "position_current K t (kinematics_context q v' pc ps pn vc True vn)"
      by (rule position_currentI) (use p in \<open>simp add: canon\<close>)
    then show ?thesis by (simp add: c mutate_velocities declared_perform [OF d] del: perform.simps)
  next
    case pull_position_kinematics
    have fresh: "position_current K t
            (kinematics_context q v
               (CalcPositionKinematicsCache K t \<lparr>positions = q, velocities = [], cache = []\<rparr>)
               False (Suc pn) vc vs vn)"
      by (rule position_currentI) (simp add: canon)
    have same: "position_current K t (kinematics_context q v pc ps pn vc vs vn)"
      using inv c by simp
    show ?thesis
      by (cases ps)
         (use fresh same in \<open>simp_all add: c pull_position_kinematics declared_perform [OF d]
            canon del: perform.simps\<close>)
  next
    case pull_velocity_kinematics
    have fresh: "position_current K t (kinematics_context q v pc' False pn' vc' False vn')"
      if "pc' = CalcPositionKinematicsCache K t \<lparr>positions = q, velocities = [], cache = []\<rparr>"
      for pc' pn' vc' vn'
      by (rule position_currentI) (use that in \<open>simp add: canon\<close>)
    have same: "position_current K t (kinematics_context q v pc ps pn vc vs vn)"
      using inv c by simp
    show ?thesis
    proof (cases vs)
      case False
      with same show ?thesis
        by (simp add: c pull_velocity_kinematics declared_perform [OF d] del: perform.simps)
    next
      case True
      then show ?thesis
        by (cases ps)
           (use p in \<open>simp_all add: c pull_velocity_kinematics declared_perform [OF d] canon
              Let_def fresh del: perform.simps\<close>)
    qed
  qed
qed

lemma run_position_current:
  assumes d: "kinematics_declared K t sys"
    and pure: "\<forall>c c'. positions c = positions c' \<longrightarrow>
             CalcPositionKinematicsCache K t c = CalcPositionKinematicsCache K t c'"
  shows "position_current K t ctx \<Longrightarrow>
         \<exists>ctx'. run sys acts ctx = Inr ctx' \<and> position_current K t ctx'"
proof (induction acts arbitrary: ctx)
  case Nil
  then show ?case by simp
next
  case (Cons a acts)
  from perform_position_current [OF d pure Cons.prems, of a] obtain c1 where
    "perform sys a ctx = Inr c1" "position_current K t c1" by blast
  with Cons.IH [of c1] show ?case by simp
qed

lemma allocated_position_current:
  assumes d: "kinematics_declared K t sys"
  shows "\<exists>ctx0. AllocateContext sys = Inr ctx0 \<and> position_current K t ctx0"
proof -
  have "position_current K t
     (kinematics_context (replicate (num_positions t) 0) (replicate (num_velocities t) 0)
        (PositionKinematicsCache K t) True 0 (VelocityKinematicsCache K t) True 0)"
    by (rule position_currentI) simp
  then show ?thesis by (simp add: declared_AllocateContext [OF d])
qed


lemma declared_velocity_entry:
  assumes d: "kinematics_declared K t sys"
  shows "\<exists>ve. get_cache_entry sys (velocity_kinematics_cache_index' sys) = Inr ve \<and>
           prerequisites ve = [kinematics_ticket] \<and>
           (\<forall>q v pc ps pn vc vs vn old.
              calc ve (kinematics_context q v pc ps pn vc vs vn)
                (Make_VelocityKinematicsCache old) =
              (case EvalPositionKinematics sys (kinematics_context q v pc ps pn vc vs vn) of
                 Inl err \<Rightarrow> Inl err
               | Inr (pc', ctx') \<Rightarrow>
                   Inr (Make_VelocityKinematicsCache
                          (CalcVelocityKinematicsCache K t ctx' pc'), ctx')))"
proof -
  from d obtain s4 where
    i: "velocity_kinematics_cache_index' sys = Some (Suc 0)" and
    c: "cache_entries sys =
          [position_kinematics_entry K t 0, velocity_kinematics_entry K t s4 (Suc 0)]" and
    s4: "position_kinematics_cache_index' s4 = Some 0"
        "cache_entries s4 = position_kinematics_entry K t 0 # []"
    unfolding kinematics_declared_def by auto
  have g: "get_cache_entry sys (velocity_kinematics_cache_index' sys) =
             Inr (velocity_kinematics_entry K t s4 (Suc 0))"
    by (simp add: get_cache_entry_def i c)
  have p: "prerequisites (velocity_kinematics_entry K t s4 (Suc 0)) = [kinematics_ticket]"
    by (simp add: velocity_kinematics_entry_def)
  have "calc (velocity_kinematics_entry K t s4 (Suc 0)) (kinematics_context q v pc ps pn vc vs vn)
          (Make_VelocityKinematicsCache old) =
        (case EvalPositionKinematics sys (kinematics_context q v pc ps pn vc vs vn) of
           Inl err \<Rightarrow> Inl err
         | Inr (pc', ctx') \<Rightarrow>
             Inr (Make_VelocityKinematicsCache
                    (CalcVelocityKinematicsCache K t ctx' pc'), ctx'))"
    for q v pc ps pn vc vs vn old
    by (simp add: velocity_kinematics_entry_def velocity_kinematics_calc_def
        EvalPositionKinematics_entry [OF s4] declared_EvalPositionKinematics [OF d])
  with g p show ?thesis by blast
qed

text \<open>
  C2: in every context reached from a freshly allocated one by mutations and pulls, the
  compute function of the velocity entry first reads the position entry through the
  system, which recomputes it if and only if it is stale, and then returns the result of
  the velocity routine on the context as that read left it and on the position value the
  read returned. When the position routine depends on the positions only, that value is
  the position kinematics of the current configuration, and the position slot is left
  valid and holding it.
\<close>

theorem velocity_calc_pulls_position:
  fixes K :: "('a::zero, 'pc, 'vc) kinematics"
  assumes f: "Finalize K s0 = Inr sys" and e: "cache_entries s0 = []"
    and t: "tree' sys = Some t"
    and pure: "\<forall>c c'. positions c = positions c' \<longrightarrow>
             CalcPositionKinematicsCache K t c = CalcPositionKinematicsCache K t c'"
    and a: "AllocateContext sys = Inr ctx0" and r: "run sys acts ctx0 = Inr ctx"
  shows "\<exists>ve vslot pc ctx'.
     get_cache_entry sys (velocity_kinematics_cache_index' sys) = Inr ve \<and>
     velocity_slot sys ctx = Some vslot \<and>
     EvalPositionKinematics sys ctx = Inr (pc, ctx') \<and>
     calc ve ctx (slot_value vslot) =
       Inr (Make_VelocityKinematicsCache (CalcVelocityKinematicsCache K t ctx' pc), ctx') \<and>
     pc = CalcPositionKinematicsCache K t ctx \<and>
     pc = CalcPositionKinematicsCache K t ctx' \<and>
     positions ctx' = positions ctx \<and> velocities ctx' = velocities ctx \<and>
     position_slot sys ctx' =
       Some \<lparr>slot_value = Make_PositionKinematicsCache pc, out_of_date = False,
             recomputes = position_recomputes sys ctx +
                          (if position_out_of_date sys ctx then 1 else 0),
             slot_prerequisites = [configuration_ticket]\<rparr>"
proof -
  from Finalize_kinematics_declared [OF f e] t have d: "kinematics_declared K t sys"
    by auto
  note canon = pure_kinematics_context [OF pure]
  from allocated_position_current [OF d] a have "position_current K t ctx0" by auto
  from run_position_current [OF d pure this, of acts] r have "position_current K t ctx"
    by auto
  then obtain q v pc ps pn vc vs vn where
    c: "ctx = kinematics_context q v pc ps pn vc vs vn" and
    p0: "\<not> ps \<longrightarrow> pc = CalcPositionKinematicsCache K t ctx"
    unfolding position_current_def by blast
  from p0 have
    p: "\<not> ps \<Longrightarrow> pc = CalcPositionKinematicsCache K t \<lparr>positions = q, velocities = [], cache = []\<rparr>"
    by (simp add: c canon)
  from declared_velocity_entry [OF d] obtain ve where
    g: "get_cache_entry sys (velocity_kinematics_cache_index' sys) = Inr ve" and
    k: "\<And>q v pc ps pn vc vs vn old.
              calc ve (kinematics_context q v pc ps pn vc vs vn)
                (Make_VelocityKinematicsCache old) =
              (case EvalPositionKinematics sys (kinematics_context q v pc ps pn vc vs vn) of
                 Inl err \<Rightarrow> Inl err
               | Inr (pc', ctx') \<Rightarrow>
                   Inr (Make_VelocityKinematicsCache
                          (CalcVelocityKinematicsCache K t ctx' pc'), ctx'))"
    by blast
  let ?pc = "CalcPositionKinematicsCache K t \<lparr>positions = q, velocities = [], cache = []\<rparr>"
  let ?ctx' = "kinematics_context q v ?pc False (if ps then Suc pn else pn) vc vs vn"
  have ev: "EvalPositionKinematics sys ctx = Inr (?pc, ?ctx')"
    by (cases ps) (simp_all add: c declared_EvalPositionKinematics [OF d] canon p)
  have cv: "calc ve ctx (Make_VelocityKinematicsCache vc) =
       Inr (Make_VelocityKinematicsCache (CalcVelocityKinematicsCache K t ?ctx' ?pc), ?ctx')"
    using ev by (simp add: c k)
  have sl: "velocity_slot sys ctx =
      Some \<lparr>slot_value = Make_VelocityKinematicsCache vc, out_of_date = vs,
            recomputes = vn, slot_prerequisites = [kinematics_ticket]\<rparr>"
    by (simp add: c declared_observers [OF d])
  have pq: "positions ?ctx' = positions ctx" "velocities ?ctx' = velocities ctx"
    by (simp_all add: c kinematics_context_def)
  have ps: "position_slot sys ?ctx' =
       Some \<lparr>slot_value = Make_PositionKinematicsCache ?pc, out_of_date = False,
             recomputes = position_recomputes sys ctx +
                          (if position_out_of_date sys ctx then 1 else 0),
             slot_prerequisites = [configuration_ticket]\<rparr>"
    by (simp add: c declared_observers [OF d])
  have cur: "?pc = CalcPositionKinematicsCache K t ctx" "?pc = CalcPositionKinematicsCache K t ?ctx'"
    by (simp_all add: c canon)
  show ?thesis
    apply (intro exI [of _ ve] exI [of _ "\<lparr>slot_value = Make_VelocityKinematicsCache vc,
            out_of_date = vs, recomputes = vn, slot_prerequisites = [kinematics_ticket]\<rparr>"]
        exI [of _ ?pc] exI [of _ ?ctx'])
    using g sl ev cv pq ps cur by simp
qed


lemma perform_is_kinematics_context:
  assumes d: "kinematics_declared K t sys" and c: "is_kinematics_context ctx"
  shows "\<exists>ctx'. perform sys a ctx = Inr ctx' \<and> is_kinematics_context ctx'"
proof -
  from c obtain q v pc ps pn vc vs vn where
    c: "ctx = kinematics_context q v pc ps pn vc vs vn"
    unfolding is_kinematics_context_def by blast
  have k: "is_kinematics_context (kinematics_context q' v' pc' ps' pn' vc' vs' vn')"
    for q' v' pc' ps' pn' vc' vs' vn'
    unfolding is_kinematics_context_def by blast
  show ?thesis
    by (cases a) (simp_all add: c declared_perform [OF d] k Let_def del: perform.simps)
qed

lemma run_is_kinematics_context:
  assumes d: "kinematics_declared K t sys"
  shows "is_kinematics_context ctx \<Longrightarrow>
         \<exists>ctx'. run sys acts ctx = Inr ctx' \<and> is_kinematics_context ctx'"
proof (induction acts arbitrary: ctx)
  case Nil
  then show ?case by simp
next
  case (Cons a acts)
  from perform_is_kinematics_context [OF d Cons.prems, of a] obtain c1 where
    "perform sys a ctx = Inr c1" "is_kinematics_context c1" by blast
  with Cons.IH [of c1] show ?case by simp
qed

lemma reachable_is_kinematics_context:
  assumes d: "kinematics_declared K t sys"
    and a: "AllocateContext sys = Inr ctx0" and r: "run sys acts ctx0 = Inr ctx"
  shows "is_kinematics_context ctx"
proof -
  from a have "is_kinematics_context ctx0"
    unfolding declared_AllocateContext [OF d] is_kinematics_context_def by blast
  from run_is_kinematics_context [OF d this, of acts] r show ?thesis by auto
qed

lemma perform_pull_budget:
  assumes d: "kinematics_declared K t sys" and c: "is_kinematics_context ctx"
    and a: "is_pull a"
  shows "\<exists>ctx'. perform sys a ctx = Inr ctx' \<and> is_kinematics_context ctx' \<and>
     position_recomputes sys ctx' + (if position_out_of_date sys ctx' then 1 else 0)
       \<le> position_recomputes sys ctx + (if position_out_of_date sys ctx then 1 else 0) \<and>
     velocity_recomputes sys ctx' + (if velocity_out_of_date sys ctx' then 1 else 0)
       \<le> velocity_recomputes sys ctx + (if velocity_out_of_date sys ctx then 1 else 0) \<and>
     position_recomputes sys ctx \<le> position_recomputes sys ctx' \<and>
     velocity_recomputes sys ctx \<le> velocity_recomputes sys ctx'"
proof -
  from c obtain q v pc ps pn vc vs vn where
    c: "ctx = kinematics_context q v pc ps pn vc vs vn"
    unfolding is_kinematics_context_def by blast
  have k: "is_kinematics_context (kinematics_context q' v' pc' ps' pn' vc' vs' vn')"
    for q' v' pc' ps' pn' vc' vs' vn'
    unfolding is_kinematics_context_def by blast
  show ?thesis
  proof (cases a)
    case pull_position_kinematics
    show ?thesis
      by (cases ps)
         (simp_all add: c pull_position_kinematics declared_perform [OF d]
            declared_observers [OF d] k del: perform.simps)
  next
    case pull_velocity_kinematics
    show ?thesis
      by (cases ps; cases vs)
         (simp_all add: c pull_velocity_kinematics declared_perform [OF d]
            declared_observers [OF d] k Let_def del: perform.simps)
  qed (use a in simp_all)
qed

lemma run_pulls_budget:
  assumes d: "kinematics_declared K t sys"
  shows "is_kinematics_context ctx \<Longrightarrow> list_all is_pull pulls \<Longrightarrow>
     \<exists>ctx'. run sys pulls ctx = Inr ctx' \<and> is_kinematics_context ctx' \<and>
     position_recomputes sys ctx' + (if position_out_of_date sys ctx' then 1 else 0)
       \<le> position_recomputes sys ctx + (if position_out_of_date sys ctx then 1 else 0) \<and>
     velocity_recomputes sys ctx' + (if velocity_out_of_date sys ctx' then 1 else 0)
       \<le> velocity_recomputes sys ctx + (if velocity_out_of_date sys ctx then 1 else 0) \<and>
     position_recomputes sys ctx \<le> position_recomputes sys ctx' \<and>
     velocity_recomputes sys ctx \<le> velocity_recomputes sys ctx'"
proof (induction pulls arbitrary: ctx)
  case Nil
  then show ?case by simp
next
  case (Cons a pulls)
  then have pa: "is_pull a" and pp: "list_all is_pull pulls" by simp_all
  from perform_pull_budget [OF d Cons.prems(1) pa] obtain c1 where
    s1: "perform sys a ctx = Inr c1" and k1: "is_kinematics_context c1" and
    b1: "position_recomputes sys c1 + (if position_out_of_date sys c1 then 1 else 0)
       \<le> position_recomputes sys ctx + (if position_out_of_date sys ctx then 1 else 0)"
     "velocity_recomputes sys c1 + (if velocity_out_of_date sys c1 then 1 else 0)
       \<le> velocity_recomputes sys ctx + (if velocity_out_of_date sys ctx then 1 else 0)"
     "position_recomputes sys ctx \<le> position_recomputes sys c1"
     "velocity_recomputes sys ctx \<le> velocity_recomputes sys c1"
    by blast
  from Cons.IH [OF k1 pp] obtain c2 where
    s2: "run sys pulls c1 = Inr c2" and k2: "is_kinematics_context c2" and
    b2: "position_recomputes sys c2 + (if position_out_of_date sys c2 then 1 else 0)
       \<le> position_recomputes sys c1 + (if position_out_of_date sys c1 then 1 else 0)"
     "velocity_recomputes sys c2 + (if velocity_out_of_date sys c2 then 1 else 0)
       \<le> velocity_recomputes sys c1 + (if velocity_out_of_date sys c1 then 1 else 0)"
     "position_recomputes sys c1 \<le> position_recomputes sys c2"
     "velocity_recomputes sys c1 \<le> velocity_recomputes sys c2"
    by blast
  have "run sys (a # pulls) ctx = Inr c2"
    by (simp add: s1 s2 del: perform.simps)
  moreover have
    "position_recomputes sys c2 + (if position_out_of_date sys c2 then 1 else 0)
       \<le> position_recomputes sys ctx + (if position_out_of_date sys ctx then 1 else 0)"
    "velocity_recomputes sys c2 + (if velocity_out_of_date sys c2 then 1 else 0)
       \<le> velocity_recomputes sys ctx + (if velocity_out_of_date sys ctx then 1 else 0)"
    "position_recomputes sys ctx \<le> position_recomputes sys c2"
    "velocity_recomputes sys ctx \<le> velocity_recomputes sys c2"
    using b1 b2 by linarith+
  ultimately show ?case using k2 by blast
qed


text \<open>
  C3: in every context reached from a freshly allocated one, a sequence of pulls without
  a mutation in between runs each compute function at most once. After a change of the
  positions, pulling the velocity kinematics runs both compute functions exactly once and
  leaves both slots valid, and no further pull runs either of them again.
\<close>

theorem recompute_at_most_once:
  fixes K :: "('a::zero, 'pc, 'vc) kinematics"
  assumes f: "Finalize K s0 = Inr sys" and e: "cache_entries s0 = []"
    and a: "AllocateContext sys = Inr ctx0" and r: "run sys acts ctx0 = Inr ctx"
    and pl: "list_all is_pull pulls"
  shows "(\<exists>c1. run sys pulls ctx = Inr c1 \<and>
            position_recomputes sys c1 \<le> position_recomputes sys ctx + 1 \<and>
            velocity_recomputes sys c1 \<le> velocity_recomputes sys ctx + 1) \<and>
         (\<exists>c2 c3.
            perform sys pull_velocity_kinematics (SetPositions q ctx) = Inr c2 \<and>
            position_recomputes sys c2 = position_recomputes sys ctx + 1 \<and>
            velocity_recomputes sys c2 = velocity_recomputes sys ctx + 1 \<and>
            \<not> position_out_of_date sys c2 \<and> \<not> velocity_out_of_date sys c2 \<and>
            run sys pulls c2 = Inr c3 \<and>
            position_recomputes sys c3 = position_recomputes sys c2 \<and>
            velocity_recomputes sys c3 = velocity_recomputes sys c2)"
proof -
  from Finalize_kinematics_declared [OF f e] obtain t where
    d: "kinematics_declared K t sys" by blast
  have kc: "is_kinematics_context ctx"
    by (rule reachable_is_kinematics_context [OF d a r])
  from run_pulls_budget [OF d kc pl] obtain c1 where
    r1: "run sys pulls ctx = Inr c1" and
    b1: "position_recomputes sys c1 + (if position_out_of_date sys c1 then 1 else 0)
       \<le> position_recomputes sys ctx + (if position_out_of_date sys ctx then 1 else 0)"
     "velocity_recomputes sys c1 + (if velocity_out_of_date sys c1 then 1 else 0)
       \<le> velocity_recomputes sys ctx + (if velocity_out_of_date sys ctx then 1 else 0)"
    by blast
  have first: "\<exists>c1. run sys pulls ctx = Inr c1 \<and>
            position_recomputes sys c1 \<le> position_recomputes sys ctx + 1 \<and>
            velocity_recomputes sys c1 \<le> velocity_recomputes sys ctx + 1"
  proof (intro exI conjI)
    show "run sys pulls ctx = Inr c1" by (rule r1)
    show "position_recomputes sys c1 \<le> position_recomputes sys ctx + 1"
      using b1(1) by (simp split: if_splits)
    show "velocity_recomputes sys c1 \<le> velocity_recomputes sys ctx + 1"
      using b1(2) by (simp split: if_splits)
  qed
  from kc obtain q0 v pc ps pn vc vs vn where
    c: "ctx = kinematics_context q0 v pc ps pn vc vs vn"
    unfolding is_kinematics_context_def by blast
  obtain c2 where
    p2: "perform sys pull_velocity_kinematics (SetPositions q ctx) = Inr c2" and
    k2: "is_kinematics_context c2" and
    n2: "position_recomputes sys c2 = position_recomputes sys ctx + 1"
        "velocity_recomputes sys c2 = velocity_recomputes sys ctx + 1" and
    o2: "\<not> position_out_of_date sys c2" "\<not> velocity_out_of_date sys c2"
  proof
    let ?pc = "CalcPositionKinematicsCache K t (kinematics_context q v pc True pn vc True vn)"
    let ?vc = "CalcVelocityKinematicsCache K t
                 (kinematics_context q v ?pc False (Suc pn) vc True vn) ?pc"
    let ?c2 = "kinematics_context q v ?pc False (Suc pn) ?vc False (Suc vn)"
    show "perform sys pull_velocity_kinematics (SetPositions q ctx) = Inr ?c2"
      by (simp add: c SetPositions_kinematics_context declared_perform [OF d] Let_def
          del: perform.simps)
    show "is_kinematics_context ?c2"
      unfolding is_kinematics_context_def by blast
    show "position_recomputes sys ?c2 = position_recomputes sys ctx + 1"
      "velocity_recomputes sys ?c2 = velocity_recomputes sys ctx + 1"
      "\<not> position_out_of_date sys ?c2" "\<not> velocity_out_of_date sys ?c2"
      by (simp_all add: c declared_observers [OF d])
  qed
  from run_pulls_budget [OF d k2 pl] obtain c3 where
    r3: "run sys pulls c2 = Inr c3" and
    b3: "position_recomputes sys c3 + (if position_out_of_date sys c3 then 1 else 0)
       \<le> position_recomputes sys c2 + (if position_out_of_date sys c2 then 1 else 0)"
     "velocity_recomputes sys c3 + (if velocity_out_of_date sys c3 then 1 else 0)
       \<le> velocity_recomputes sys c2 + (if velocity_out_of_date sys c2 then 1 else 0)"
     "position_recomputes sys c2 \<le> position_recomputes sys c3"
     "velocity_recomputes sys c2 \<le> velocity_recomputes sys c3"
    by blast
  have e3: "position_recomputes sys c3 = position_recomputes sys c2"
    "velocity_recomputes sys c3 = velocity_recomputes sys c2"
    using b3 o2 by (simp_all split: if_splits)
  from first p2 n2 o2 r3 e3 show ?thesis by blast
qed

text \<open>
  C7: the position entry is declared with the configuration ticket, which a change of
  configuration touches and nothing else; the velocity entry with the kinematics ticket,
  which a change of configuration or of velocity touches. A change of the positions marks
  both slots stale; a change of the velocities marks the velocity slot stale and leaves
  the position slot as it was, so that the next pull recomputes the velocity kinematics
  once and the position kinematics only if they were stale before.
\<close>

theorem kinematics_ticket_sets:
  fixes K :: "('a::zero, 'pc, 'vc) kinematics"
  assumes f: "Finalize K s0 = Inr sys" and e: "cache_entries s0 = []"
    and a: "AllocateContext sys = Inr ctx0" and r: "run sys acts ctx0 = Inr ctx"
  shows "(\<exists>pe ve.
            get_cache_entry sys (position_kinematics_cache_index' sys) = Inr pe \<and>
            get_cache_entry sys (velocity_kinematics_cache_index' sys) = Inr ve \<and>
            description pe = ''position kinematics'' \<and>
            description ve = ''velocity kinematics'' \<and>
            prerequisites pe = [configuration_ticket] \<and>
            invalidated_by (prerequisites pe) = {ConfigurationChanged} \<and>
            prerequisites ve = [kinematics_ticket] \<and>
            invalidated_by (prerequisites ve) = {ConfigurationChanged, VelocityChanged}) \<and>
         position_out_of_date sys (SetPositions q ctx) \<and>
         velocity_out_of_date sys (SetPositions q ctx) \<and>
         velocity_out_of_date sys (SetVelocities v ctx) \<and>
         position_slot sys (SetVelocities v ctx) = position_slot sys ctx \<and>
         (\<exists>c'. perform sys pull_position_kinematics (SetVelocities v ctx) = Inr c' \<and>
               position_recomputes sys c' =
                 position_recomputes sys ctx +
                   (if position_out_of_date sys ctx then 1 else 0)) \<and>
         (\<exists>c'. perform sys pull_velocity_kinematics (SetVelocities v ctx) = Inr c' \<and>
               velocity_recomputes sys c' = velocity_recomputes sys ctx + 1 \<and>
               position_recomputes sys c' =
                 position_recomputes sys ctx +
                   (if position_out_of_date sys ctx then 1 else 0))"
proof -
  from Finalize_kinematics_declared [OF f e] obtain t where
    d: "kinematics_declared K t sys" by blast
  from d obtain s4 where
    i: "position_kinematics_cache_index' sys = Some 0"
       "velocity_kinematics_cache_index' sys = Some (Suc 0)" and
    ce: "cache_entries sys =
          [position_kinematics_entry K t 0, velocity_kinematics_entry K t s4 (Suc 0)]"
    unfolding kinematics_declared_def by auto
  have entries: "\<exists>pe ve.
            get_cache_entry sys (position_kinematics_cache_index' sys) = Inr pe \<and>
            get_cache_entry sys (velocity_kinematics_cache_index' sys) = Inr ve \<and>
            description pe = ''position kinematics'' \<and>
            description ve = ''velocity kinematics'' \<and>
            prerequisites pe = [configuration_ticket] \<and>
            invalidated_by (prerequisites pe) = {ConfigurationChanged} \<and>
            prerequisites ve = [kinematics_ticket] \<and>
            invalidated_by (prerequisites ve) = {ConfigurationChanged, VelocityChanged}"
    by (simp add: get_cache_entry_def i ce position_kinematics_entry_def
        velocity_kinematics_entry_def invalidated_by_def)
  have "is_kinematics_context ctx"
    by (rule reachable_is_kinematics_context [OF d a r])
  then obtain q0 v0 pc ps pn vc vs vn where
    c: "ctx = kinematics_context q0 v0 pc ps pn vc vs vn"
    unfolding is_kinematics_context_def by blast
  have stale: "position_out_of_date sys (SetPositions q ctx)"
    "velocity_out_of_date sys (SetPositions q ctx)"
    "velocity_out_of_date sys (SetVelocities v ctx)"
    "position_slot sys (SetVelocities v ctx) = position_slot sys ctx"
    by (simp_all add: c SetPositions_kinematics_context SetVelocities_kinematics_context
        declared_observers [OF d])
  have pp: "\<exists>c'. perform sys pull_position_kinematics (SetVelocities v ctx) = Inr c' \<and>
               position_recomputes sys c' =
                 position_recomputes sys ctx +
                   (if position_out_of_date sys ctx then 1 else 0)"
    by (cases ps)
       (simp_all add: c SetVelocities_kinematics_context declared_perform [OF d]
          declared_observers [OF d] del: perform.simps)
  have pv: "\<exists>c'. perform sys pull_velocity_kinematics (SetVelocities v ctx) = Inr c' \<and>
               velocity_recomputes sys c' = velocity_recomputes sys ctx + 1 \<and>
               position_recomputes sys c' =
                 position_recomputes sys ctx +
                   (if position_out_of_date sys ctx then 1 else 0)"
    by (cases ps)
       (simp_all add: c SetVelocities_kinematics_context declared_perform [OF d]
          declared_observers [OF d] Let_def del: perform.simps)
  from entries stale pp pv show ?thesis by blast
qed


lemma example_system_declared:
  assumes "Finalize example_kinematics (example_system d) = Inr sys"
  shows "tree' sys = Some (tree_Finalize (set_tree_system 1 example_tree))"
    and "kinematics_declared example_kinematics
           (tree_Finalize (set_tree_system 1 example_tree)) sys"
    and "AllocateContext sys =
           Inr (kinematics_context (replicate 4 0) (replicate 3 0) 0 True 0 0 True 0)"
proof -
  have e: "cache_entries (example_system d) = []"
    by (simp add: example_system_def)
  show t: "tree' sys = Some (tree_Finalize (set_tree_system 1 example_tree))"
    using Finalize_InrD [OF assms]
    by (simp add: example_system_def set_tree_system_def example_tree_def tree_Finalize_def)
  with Finalize_kinematics_declared [OF assms e]
  show k: "kinematics_declared example_kinematics
           (tree_Finalize (set_tree_system 1 example_tree)) sys"
    by auto
  show "AllocateContext sys =
           Inr (kinematics_context (replicate 4 0) (replicate 3 0) 0 True 0 0 True 0)"
    unfolding declared_AllocateContext [OF k]
    by (simp add: example_kinematics_def tree_Finalize_def set_tree_system_def
        example_tree_def)
qed

theorem velocity_calc_pulls_position_witness:
  "(let sys = projr (Finalize example_kinematics (example_system False));
        ctx = projr (run sys [mutate_positions [1, 2, 3, 4], mutate_velocities [1, 1, 1]]
                       (projr (AllocateContext sys)))
    in \<not> isl (Finalize example_kinematics (example_system False)) \<and>
       \<not> isl (AllocateContext sys) \<and>
       \<not> isl (run sys [mutate_positions [1, 2, 3, 4], mutate_velocities [1, 1, 1]]
                (projr (AllocateContext sys))) \<and>
       map_sum id fst (EvalPositionKinematics sys ctx) = Inr 10 \<and>
       map_sum id fst
         (calc (projr (get_cache_entry sys (velocity_kinematics_cache_index' sys))) ctx
            (Make_VelocityKinematicsCache 0)) =
         Inr (Make_VelocityKinematicsCache 13))"
proof -
  let ?K = example_kinematics
  let ?t = "tree_Finalize (set_tree_system 1 example_tree)"
  let ?acts = "[mutate_positions [1, 2, 3, 4], mutate_velocities [1, 1, 1]]"
  let ?start = "kinematics_context (replicate 4 0) (replicate 3 0) 0 True 0 0 True 0
                 :: (int, int, int) multibody_tree_context"
  let ?ctx = "kinematics_context [1, 2, 3, 4] [1, 1, 1] 0 True 0 0 True 0
                 :: (int, int, int) multibody_tree_context"
  obtain sys where f: "Finalize ?K (example_system False) = Inr sys"
    using example_system_Finalize by blast
  note d = example_system_declared [OF f]
  have e: "cache_entries (example_system False) = []"
    by (simp add: example_system_def)
  have pure: "\<forall>c c'. positions c = positions c' \<longrightarrow>
      CalcPositionKinematicsCache ?K ?t c = CalcPositionKinematicsCache ?K ?t c'"
    by (simp add: example_kinematics_def)
  have r: "run sys ?acts ?start = Inr ?ctx"
    by (simp add: declared_perform [OF d(2)] del: perform.simps)
  from velocity_calc_pulls_position [OF f e d(1) pure d(3) r]
  obtain ve vslot pc ctx' where
    g: "get_cache_entry sys (velocity_kinematics_cache_index' sys) = Inr ve" and
    vs: "velocity_slot sys ?ctx = Some vslot" and
    ev: "EvalPositionKinematics sys ?ctx = Inr (pc, ctx')" and
    cv: "calc ve ?ctx (slot_value vslot) =
           Inr (Make_VelocityKinematicsCache (CalcVelocityKinematicsCache ?K ?t ctx' pc), ctx')" and
    pc: "pc = CalcPositionKinematicsCache ?K ?t ?ctx" and
    vv: "velocities ctx' = velocities ?ctx"
    by blast
  have pc10: "pc = 10"
    by (simp add: pc example_kinematics_def kinematics_context_def)
  have sv: "slot_value vslot = Make_VelocityKinematicsCache 0"
    using vs by (auto simp: declared_observers [OF d(2)])
  have v13: "CalcVelocityKinematicsCache ?K ?t ctx' pc = 13"
    by (simp add: example_kinematics_def vv pc10 kinematics_context_def)
  show ?thesis
    using cv v13 by (simp add: f d(3) r g ev sv pc10 Let_def del: run.simps)
qed


theorem recompute_at_most_once_witness:
  "(let sys = projr (Finalize example_kinematics (example_system False));
        ctx = projr (run sys [mutate_velocities [1, 1, 1], pull_velocity_kinematics]
                       (projr (AllocateContext sys)));
        pulls = [pull_position_kinematics, pull_velocity_kinematics, pull_velocity_kinematics];
        c2 = projr (perform sys pull_velocity_kinematics (SetPositions [1, 2, 3, 4] ctx));
        c3 = projr (run sys pulls c2)
    in \<not> isl (Finalize example_kinematics (example_system False)) \<and>
       \<not> isl (AllocateContext sys) \<and>
       \<not> isl (run sys [mutate_velocities [1, 1, 1], pull_velocity_kinematics]
                (projr (AllocateContext sys))) \<and>
       list_all is_pull pulls \<and>
       position_recomputes sys ctx = 1 \<and> velocity_recomputes sys ctx = 1 \<and>
       \<not> isl (perform sys pull_velocity_kinematics (SetPositions [1, 2, 3, 4] ctx)) \<and>
       position_recomputes sys c2 = 2 \<and> velocity_recomputes sys c2 = 2 \<and>
       \<not> isl (run sys pulls c2) \<and>
       position_recomputes sys c3 = 2 \<and> velocity_recomputes sys c3 = 2)"
proof -
  let ?K = example_kinematics
  let ?acts = "[mutate_velocities [1, 1, 1], pull_velocity_kinematics]"
  let ?pulls = "[pull_position_kinematics, pull_velocity_kinematics, pull_velocity_kinematics]
                  :: int action list"
  let ?start = "kinematics_context (replicate 4 0) (replicate 3 0) 0 True 0 0 True 0
                 :: (int, int, int) multibody_tree_context"
  obtain sys where f: "Finalize ?K (example_system False) = Inr sys"
    using example_system_Finalize by blast
  note d = example_system_declared [OF f]
  have e: "cache_entries (example_system False) = []"
    by (simp add: example_system_def)
  obtain ctx where r: "run sys ?acts ?start = Inr ctx" and
    n: "position_recomputes sys ctx = 1" "velocity_recomputes sys ctx = 1"
    by (simp add: declared_perform [OF d(2)] declared_observers [OF d(2)] Let_def
        del: perform.simps)
  have pl: "list_all is_pull ?pulls" by simp
  from recompute_at_most_once [OF f e d(3) r pl, of "[1, 2, 3, 4]"]
  obtain c2 c3 where
    "perform sys pull_velocity_kinematics (SetPositions [1, 2, 3, 4] ctx) = Inr c2"
    "position_recomputes sys c2 = position_recomputes sys ctx + 1"
    "velocity_recomputes sys c2 = velocity_recomputes sys ctx + 1"
    "run sys ?pulls c2 = Inr c3"
    "position_recomputes sys c3 = position_recomputes sys c2"
    "velocity_recomputes sys c3 = velocity_recomputes sys c2"
    by blast
  then show ?thesis
    using n by (simp add: f d(3) r Let_def del: run.simps perform.simps)
qed

theorem kinematics_ticket_sets_witness:
  "(let sys = projr (Finalize example_kinematics (example_system False));
        ctx = projr (run sys [pull_velocity_kinematics] (projr (AllocateContext sys)));
        c1 = projr (perform sys pull_velocity_kinematics (SetVelocities [1, 1, 1] ctx))
    in \<not> isl (Finalize example_kinematics (example_system False)) \<and>
       \<not> isl (AllocateContext sys) \<and>
       \<not> isl (run sys [pull_velocity_kinematics] (projr (AllocateContext sys))) \<and>
       \<not> position_out_of_date sys ctx \<and> \<not> velocity_out_of_date sys ctx \<and>
       position_out_of_date sys (SetPositions [1, 2, 3, 4] ctx) \<and>
       velocity_out_of_date sys (SetPositions [1, 2, 3, 4] ctx) \<and>
       \<not> position_out_of_date sys (SetVelocities [1, 1, 1] ctx) \<and>
       velocity_out_of_date sys (SetVelocities [1, 1, 1] ctx) \<and>
       \<not> isl (perform sys pull_velocity_kinematics (SetVelocities [1, 1, 1] ctx)) \<and>
       position_recomputes sys ctx = 1 \<and> velocity_recomputes sys ctx = 1 \<and>
       position_recomputes sys c1 = 1 \<and> velocity_recomputes sys c1 = 2)"
proof -
  let ?K = example_kinematics
  let ?start = "kinematics_context (replicate 4 0) (replicate 3 0) 0 True 0 0 True 0
                 :: (int, int, int) multibody_tree_context"
  obtain sys where f: "Finalize ?K (example_system False) = Inr sys"
    using example_system_Finalize by blast
  note d = example_system_declared [OF f]
  have e: "cache_entries (example_system False) = []"
    by (simp add: example_system_def)
  obtain ctx where r: "run sys [pull_velocity_kinematics] ?start = Inr ctx" and
    n: "position_recomputes sys ctx = 1" "velocity_recomputes sys ctx = 1"
       "\<not> position_out_of_date sys ctx" "\<not> velocity_out_of_date sys ctx"
    by (simp add: declared_perform [OF d(2)] declared_observers [OF d(2)] Let_def
        del: perform.simps)
  from kinematics_ticket_sets [OF f e d(3) r, of "[1, 2, 3, 4]" "[1, 1, 1]"]
  obtain c1 where
    "position_out_of_date sys (SetPositions [1, 2, 3, 4] ctx)"
    "velocity_out_of_date sys (SetPositions [1, 2, 3, 4] ctx)"
    "velocity_out_of_date sys (SetVelocities [1, 1, 1] ctx)"
    "position_slot sys (SetVelocities [1, 1, 1] ctx) = position_slot sys ctx"
    "perform sys pull_velocity_kinematics (SetVelocities [1, 1, 1] ctx) = Inr c1"
    "velocity_recomputes sys c1 = velocity_recomputes sys ctx + 1"
    "position_recomputes sys c1 =
       position_recomputes sys ctx + (if position_out_of_date sys ctx then 1 else 0)"
    by blast
  then show ?thesis
    using n
    by (simp add: f d(3) r Let_def position_out_of_date_def
        del: run.simps perform.simps)
qed

end
